theory Spec2Isabelle
  imports Complex_Main
begin

section \<open>Data model (types.ts)\<close>

text \<open>
  The interfaces \<open>Exercise\<close>, \<open>WorkoutProgram\<close>, \<open>ExerciseSet\<close>,
  \<open>ActiveExercise\<close> and \<open>ActiveWorkout\<close> as records.  Fields that several
  interfaces share by name carry a prefix (\<open>e_\<close> for an exercise of a program,
  \<open>p_\<close> for a program).

  Timestamps are ISO-8601 strings in the source, always produced by
  \<open>new Date().toISOString()\<close> and read back with \<open>new Date(s).getTime()\<close>;
  the pair is the identity on millisecond clock values, so a timestamp is modelled as
  the integer number of milliseconds since the epoch, and such a string is never empty
  (never falsy).  Optional fields are \<open>option\<close>s.  A set count is a natural number,
  for which \<open>Array.from({ length: n })\<close> has exactly \<open>n\<close> elements.  A load is a
  rational number: the engine only stores it and tests it for being 0.
  The fields \<open>reps\<close>, \<open>notes\<close>, \<open>actualReps\<close> and \<open>elapsedMs\<close> of the
  interfaces take no part in the session engine and are left out.
\<close>

record Exercise =
  e_id :: string
  e_name :: string
  e_sets :: nat
  e_restTime :: int

record WorkoutProgram =
  p_id :: string
  p_name :: string
  displayName :: string
  p_exercises :: "Exercise list"

record ExerciseSet =
  setNumber :: nat
  completed :: bool
  completedAt :: "int option"
  weight :: "rat option"

record ActiveExercise =
  exerciseId :: string
  sets :: "ExerciseSet list"
  currentSet :: nat

record ActiveWorkout =
  programId :: string
  programName :: string
  startTime :: int
  exercises :: "ActiveExercise list"
  currentExerciseIndex :: nat
  isResting :: bool
  restStartTime :: "int option"
  restDuration :: "int option"
  paused :: bool

section \<open>Session creation and per-exercise elapsed time (liveWorkout.ts)\<close>

text \<open>\<open>Array.from({ length: n }, (_, i) => ({ setNumber: i + 1, completed: false }))\<close>\<close>

definition freshSets :: "nat \<Rightarrow> ExerciseSet list" where
  "freshSets n =
     map (\<lambda>i. \<lparr>setNumber = i + 1, completed = False, completedAt = None, weight = None\<rparr>)
       [0..<n]"

definition createActiveWorkout :: "int \<Rightarrow> WorkoutProgram \<Rightarrow> ActiveWorkout" where
  "createActiveWorkout now program =
     \<lparr>programId = p_id program,
      programName = displayName program,
      startTime = now,
      exercises =
        map (\<lambda>exercise.
               \<lparr>exerciseId = e_id exercise, sets = freshSets (e_sets exercise), currentSet = 0\<rparr>)
          (p_exercises program),
      currentExerciseIndex = 0,
      isResting = False,
      restStartTime = None,
      restDuration = None,
      paused = False\<rparr>"

text \<open>\<open>sets.filter(s => s.completed && s.completedAt).map(s => new Date(s.completedAt).getTime())\<close>\<close>

definition completedTimestamps :: "ExerciseSet list \<Rightarrow> int list" where
  "completedTimestamps ss =
     List.map_filter (\<lambda>s. if completed s then completedAt s else None) ss"

definition calculateExerciseElapsedMs :: "ExerciseSet list \<Rightarrow> int option" where
  "calculateExerciseElapsedMs ss =
     (case completedTimestamps ss of
        [] \<Rightarrow> None
      | t # ts \<Rightarrow>
          (let earliest = fold min ts t; latest = fold max ts t
           in Some (max 0 (latest - earliest))))"

section \<open>The world the engine runs in (storage.ts and the module state of liveWorkout.ts)\<close>

text \<open>
  The persisted session is the parsed value under \<open>ACTIVE_WORKOUT_KEY\<close> in
  localStorage (\<open>None\<close> when the key is absent or its text does not parse, which
  \<open>getActiveWorkout\<close> maps to \<open>null\<close>).  Every \<open>getActiveWorkout()\<close> parses a
  fresh copy, so two copies read in one call chain do not alias: a copy saved later
  replaces whatever was saved in between.

  The weight memory blob is absent, unusable (its text does not parse, or parses to a
  value that cannot take a property: both throw inside the \<open>try\<close> of
  \<open>saveLastUsedWeight\<close>), or a mapping from exercise identifier to load.
  \<open>weights_setItem_throws\<close> says that \<open>localStorage.setItem\<close> on the weights key
  throws.  Interval handles are modelled by whether the module variable holds one.
  The \<open>el_\<close> fields say whether \<open>document.getElementById\<close> finds the element.

  The clock is read several times in one engine call, and it may advance between two
  reads.  A \<open>clock\<close> holds the readings of one call, in the order of the reads:
  \<open>t_call\<close> is the first (the completion timestamp of \<open>completeSet\<close>, the
  \<open>Date.now()\<close> from which \<open>resumeWorkout\<close> and \<open>togglePauseWorkout\<close> compute
  the elapsed rest, the reading of an interval callback), \<open>t_rest\<close> the one
  \<open>startResting\<close> stores as \<open>restStartTime\<close>, \<open>t_end\<close> the one from which
  \<open>startRestTimer\<close> computes \<open>restEndTime\<close>, and \<open>t_shown\<close> the one of the display
  update that \<open>startRestTimer\<close> runs right away.  Calls that read the clock once
  (\<open>createActiveWorkout\<close>, \<open>finishWorkout\<close>) take that reading as \<open>now\<close>.
\<close>

record clock =
  t_call :: int
  t_rest :: int
  t_end :: int
  t_shown :: int

text \<open>A clock that does not advance during the call.\<close>

definition steady :: "int \<Rightarrow> clock" where
  "steady t = \<lparr>t_call = t, t_rest = t, t_end = t, t_shown = t\<rparr>"

datatype weights_blob = NoBlob | Corrupt | Weights "string \<Rightarrow> rat option"

datatype error = TypeError | SaveFailed

record WorkoutExerciseEntry =
  we_exerciseId :: string
  we_elapsedMs :: "int option"
  we_sets :: "ExerciseSet list"

record Workout =
  w_durationMinutes :: int
  w_programName :: string
  w_exercises :: "WorkoutExerciseEntry list"

record world =
  active :: "ActiveWorkout option"
  programs :: "WorkoutProgram list"
  weights :: weights_blob
  weights_setItem_throws :: bool
  workouts :: "Workout list"
  workoutTimer :: bool
  restTimer :: bool
  workoutStartTime :: "int option"
  restEndTime :: "int option"
  el_exercise_list :: bool
  el_rest_timer_container :: bool
  el_rest_countdown :: bool
  el_pause_workout_btn :: bool
  el_workout_duration :: bool

definition getActiveWorkout :: "world \<Rightarrow> ActiveWorkout option" where
  "getActiveWorkout w = active w"

definition saveActiveWorkout :: "ActiveWorkout \<Rightarrow> world \<Rightarrow> world" where
  "saveActiveWorkout workout w = w\<lparr>active := Some workout\<rparr>"

definition clearActiveWorkout :: "world \<Rightarrow> world" where
  "clearActiveWorkout w = w\<lparr>active := None\<rparr>"

definition getWorkoutProgramById :: "string \<Rightarrow> world \<Rightarrow> WorkoutProgram option" where
  "getWorkoutProgramById i w = find (\<lambda>p. p_id p = i) (programs w)"

text \<open>\<open>addWorkout\<close>: the POST either succeeds, and the record joins \<open>db.workouts\<close>, or
  fails, and the error is re-thrown to the caller.  \<open>api_ok\<close> is the outcome of the POST.\<close>

definition addWorkout :: "Workout \<Rightarrow> bool \<Rightarrow> world \<Rightarrow> error + world" where
  "addWorkout workoutData api_ok w =
     (if api_ok then Inr (w\<lparr>workouts := workouts w @ [workoutData]\<rparr>) else Inl SaveFailed)"

subsection \<open>Weight memory\<close>

text \<open>
  The mapping is a plain object.  \<open>weights[exerciseId] = weight\<close> with the identifier
  \<open>__proto__\<close> and no own entry of that name reaches the prototype setter, which
  ignores a number: nothing is stored.  (Reading that identifier without an own entry
  gives the prototype object, which is not a load; \<open>getLastUsedWeight\<close> gives
  \<open>None\<close> there.)
\<close>

definition assignWeight :: "(string \<Rightarrow> rat option) \<Rightarrow> string \<Rightarrow> rat \<Rightarrow> (string \<Rightarrow> rat option)" where
  "assignWeight m eid x = (if eid = ''__proto__'' \<and> m eid = None then m else m(eid \<mapsto> x))"

definition getLastUsedWeight :: "string \<Rightarrow> world \<Rightarrow> rat option" where
  "getLastUsedWeight eid w = (case weights w of Weights m \<Rightarrow> m eid | _ \<Rightarrow> None)"

text \<open>\<open>localStorage.setItem(EXERCISE_WEIGHTS_KEY, JSON.stringify(weights))\<close>, inside the
  \<open>try\<close> of \<open>saveLastUsedWeight\<close>: when it throws, the \<open>catch\<close> logs and goes on.\<close>

definition setWeightsItem :: "(string \<Rightarrow> rat option) \<Rightarrow> world \<Rightarrow> world" where
  "setWeightsItem m w = (if weights_setItem_throws w then w else w\<lparr>weights := Weights m\<rparr>)"

definition saveLastUsedWeight :: "string \<Rightarrow> rat \<Rightarrow> world \<Rightarrow> world" where
  "saveLastUsedWeight eid x w =
     (case weights w of
        Corrupt \<Rightarrow> w
      | NoBlob \<Rightarrow> setWeightsItem (assignWeight Map.empty eid x) w
      | Weights m \<Rightarrow> setWeightsItem (assignWeight m eid x) w)"

subsection \<open>Timers and rest periods\<close>

definition startWorkoutTimer :: "world \<Rightarrow> world" where
  "startWorkoutTimer w =
     (if \<not> el_workout_duration w \<or> workoutStartTime w = None then w
      else w\<lparr>workoutTimer := True\<rparr>)"

definition stopWorkoutTimer :: "world \<Rightarrow> world" where
  "stopWorkoutTimer w = w\<lparr>workoutTimer := False\<rparr>"

definition stopResting :: "world \<Rightarrow> world" where
  "stopResting w =
     (let w1 = w\<lparr>restTimer := False\<rparr>;
          w2 = (case getActiveWorkout w1 of
                  None \<Rightarrow> w1
                | Some a \<Rightarrow>
                    saveActiveWorkout
                      (a\<lparr>isResting := False, restStartTime := None, restDuration := None\<rparr>) w1)
      in w2\<lparr>restEndTime := None\<rparr>)"

text \<open>The interval callback of \<open>startRestTimer\<close>; \<open>!restEndTime\<close> holds for \<open>null\<close> and for 0.\<close>

definition updateRestDisplay :: "int \<Rightarrow> world \<Rightarrow> world" where
  "updateRestDisplay now w =
     (case restEndTime w of
        None \<Rightarrow> w
      | Some e \<Rightarrow>
          if e = 0 then w
          else (let remaining = max 0 ((e - now) div 1000)
                in if remaining = 0 then stopResting w else w))"

text \<open>\<open>startRestTimer\<close> sets the end time from one clock reading, clears the interval it
  replaces, updates the display once, with a second clock reading (which may already
  expire the rest), and then arms the new interval.\<close>

definition startRestTimer :: "int \<Rightarrow> clock \<Rightarrow> world \<Rightarrow> world" where
  "startRestTimer seconds c w =
     (if \<not> el_rest_timer_container w \<or> \<not> el_rest_countdown w then w
      else (let w1 = w\<lparr>restEndTime := Some (t_end c + seconds * 1000)\<rparr>;
                w2 = updateRestDisplay (t_shown c) w1
            in w2\<lparr>restTimer := True\<rparr>))"

definition startResting :: "int \<Rightarrow> clock \<Rightarrow> world \<Rightarrow> world" where
  "startResting seconds c w =
     (case getActiveWorkout w of
        None \<Rightarrow> w
      | Some a \<Rightarrow>
          startRestTimer seconds c
            (saveActiveWorkout
               (a\<lparr>isResting := True, restStartTime := Some (t_rest c),
                  restDuration := Some (seconds * 1000)\<rparr>) w))"

definition skipRest :: "world \<Rightarrow> world" where
  "skipRest w = stopResting w"

definition addRestTime :: "int \<Rightarrow> world \<Rightarrow> world" where
  "addRestTime seconds w =
     (case restEndTime w of
        None \<Rightarrow> w
      | Some e \<Rightarrow>
          if e = 0 then w
          else (let w1 = w\<lparr>restEndTime := Some (e + seconds * 1000)\<rparr>
                in case getActiveWorkout w1 of
                     None \<Rightarrow> w1
                   | Some a \<Rightarrow>
                       (case restDuration a of
                          None \<Rightarrow> w1
                        | Some d \<Rightarrow>
                            if d = 0 then w1
                            else saveActiveWorkout
                                   (a\<lparr>restDuration := Some (d + seconds * 1000)\<rparr>) w1)))"

section \<open>The session engine (liveWorkout.ts)\<close>

text \<open>\<open>Array.prototype.findIndex\<close>: the first position whose element and index satisfy
  the predicate; \<open>None\<close> is the source's \<open>-1\<close>.\<close>

fun findIndexFrom :: "('a \<Rightarrow> nat \<Rightarrow> bool) \<Rightarrow> nat \<Rightarrow> 'a list \<Rightarrow> nat option" where
  "findIndexFrom P i [] = None"
| "findIndexFrom P i (x # xs) = (if P x i then Some i else findIndexFrom P (Suc i) xs)"

definition findIndex :: "('a \<Rightarrow> nat \<Rightarrow> bool) \<Rightarrow> 'a list \<Rightarrow> nat option" where
  "findIndex P xs = findIndexFrom P 0 xs"

text \<open>
  Rendering changes nothing the engine reads, but it can throw: \<open>renderExercises\<close>
  maps over the exercises of the program and reads \<open>activeWorkout.exercises[index].sets\<close>
  for each, a TypeError when the program has more exercises than the session.  Without
  the list element it returns at once.  \<open>refreshLiveWorkout\<close> renders the persisted
  session when it and its program exist.
\<close>

definition renderExercises :: "WorkoutProgram \<Rightarrow> ActiveWorkout \<Rightarrow> world \<Rightarrow> error option" where
  "renderExercises program activeWorkout w =
     (if \<not> el_exercise_list w then None
      else if length (exercises activeWorkout) < length (p_exercises program)
      then Some TypeError else None)"

definition refreshLiveWorkout :: "world \<Rightarrow> error option" where
  "refreshLiveWorkout w =
     (case getActiveWorkout w of
        None \<Rightarrow> None
      | Some activeWorkout \<Rightarrow>
          (case getWorkoutProgramById (programId activeWorkout) w of
             None \<Rightarrow> None
           | Some program \<Rightarrow> renderExercises program activeWorkout w))"

text \<open>The three assignments that mark the target set (on the copy \<open>completeSet\<close> holds).\<close>

definition markCompleted :: "nat \<Rightarrow> nat \<Rightarrow> int \<Rightarrow> rat option \<Rightarrow> ActiveWorkout \<Rightarrow> ActiveWorkout" where
  "markCompleted ei si now wt a =
     (let ex = exercises a ! ei;
          s = sets ex ! si
      in a\<lparr>exercises :=
             (exercises a)[ei := ex\<lparr>sets :=
               (sets ex)[si := s\<lparr>completed := True, completedAt := Some now, weight := wt\<rparr>]\<rparr>]\<rparr>)"

text \<open>
  \<open>completeSet\<close>.  \<open>wt\<close> is the value parsed from the weight input (\<open>None\<close> when the
  input is missing or empty).  Reading a property of \<open>undefined\<close> throws a TypeError
  that nothing catches: the call stops there, before \<open>saveActiveWorkout\<close>.  The pair
  returned is the exception, if any, and the world the call leaves behind.  The copy
  \<open>activeWorkout\<close> is local until it is saved; \<open>startResting\<close> works on the store.
  The call ends with \<open>refreshLiveWorkout\<close>, after the save: an exception there leaves
  the saved session in the store.
\<close>

definition completeSet :: "nat \<Rightarrow> nat \<Rightarrow> rat option \<Rightarrow> clock \<Rightarrow> world \<Rightarrow> error option \<times> world" where
  "completeSet exerciseIndex setIndex wt c w =
     (case getActiveWorkout w of
        None \<Rightarrow> (None, w)
      | Some activeWorkout \<Rightarrow>
     (case getWorkoutProgramById (programId activeWorkout) w of
        None \<Rightarrow> (None, w)
      | Some program \<Rightarrow>
          if \<not> exerciseIndex < length (exercises activeWorkout) then (Some TypeError, w)
          else if \<not> setIndex < length (sets (exercises activeWorkout ! exerciseIndex))
          then (Some TypeError, w)
          else
            (let a1 = markCompleted exerciseIndex setIndex (t_call c) wt activeWorkout;
                 truthy = (case wt of None \<Rightarrow> False | Some x \<Rightarrow> x \<noteq> 0)
             in if truthy \<and> \<not> exerciseIndex < length (p_exercises program)
                then (Some TypeError, w)
                else
                  (let w1 = (case wt of
                               None \<Rightarrow> w
                             | Some x \<Rightarrow>
                                 if x \<noteq> 0
                                 then saveLastUsedWeight
                                        (e_id (p_exercises program ! exerciseIndex)) x w
                                 else w);
                       exercise = exercises a1 ! exerciseIndex
                   in case findIndex (\<lambda>s i. \<not> completed s) (sets exercise) of
                        Some nextSetIndex \<Rightarrow>
                          if \<not> exerciseIndex < length (p_exercises program)
                          then (Some TypeError, w1)
                          else
                            (let a2 = a1\<lparr>exercises :=
                                         (exercises a1)[exerciseIndex :=
                                            exercise\<lparr>currentSet := nextSetIndex\<rparr>]\<rparr>;
                                 restTime = e_restTime (p_exercises program ! exerciseIndex);
                                 w2 = startResting restTime c w1;
                                 w3 = saveActiveWorkout a2 w2
                             in (refreshLiveWorkout w3, w3))
                      | None \<Rightarrow>
                          (let a2 =
                             (case findIndex
                                     (\<lambda>ex idx. idx > exerciseIndex
                                        \<and> list_ex (\<lambda>s. \<not> completed s) (sets ex))
                                     (exercises a1) of
                                Some nextExerciseIndex \<Rightarrow>
                                  a1\<lparr>currentExerciseIndex := nextExerciseIndex\<rparr>
                              | None \<Rightarrow> a1);
                               w3 = saveActiveWorkout a2 w1
                           in (refreshLiveWorkout w3, w3))))))"

definition togglePauseWorkout :: "clock \<Rightarrow> world \<Rightarrow> world" where
  "togglePauseWorkout c w =
     (case getActiveWorkout w of
        None \<Rightarrow> w
      | Some a0 \<Rightarrow>
          if \<not> el_pause_workout_btn w then w
          else
            (let activeWorkout = a0\<lparr>paused := \<not> paused a0\<rparr>;
                 w1 = saveActiveWorkout activeWorkout w
             in if paused activeWorkout
                then (let w2 = stopWorkoutTimer w1
                      in if isResting activeWorkout then stopResting w2 else w2)
                else (let w2 = startWorkoutTimer w1
                      in case (isResting activeWorkout, restStartTime activeWorkout,
                               restDuration activeWorkout) of
                           (True, Some restStart, Some d) \<Rightarrow>
                             if d = 0 then w2
                             else (let elapsed = t_call c - restStart;
                                       remaining = max 0 (d - elapsed)
                                   in if remaining > 0
                                      then startRestTimer (remaining div 1000) c w2
                                      else w2)
                         | _ \<Rightarrow> w2)))"

text \<open>\<open>resumeWorkout\<close> renders the session before it touches a timer: an exception of
  \<open>renderExercises\<close> ends the call with only \<open>workoutStartTime\<close> set.\<close>

definition resumeWorkout :: "ActiveWorkout \<Rightarrow> clock \<Rightarrow> world \<Rightarrow> error option \<times> world" where
  "resumeWorkout activeWorkout c w =
     (case getWorkoutProgramById (programId activeWorkout) w of
        None \<Rightarrow> (None, w)
      | Some program \<Rightarrow>
          (let w1 = w\<lparr>workoutStartTime := Some (startTime activeWorkout)\<rparr>
           in case renderExercises program activeWorkout w1 of
                Some e \<Rightarrow> (Some e, w1)
              | None \<Rightarrow>
                  if \<not> paused activeWorkout
                  then (let w2 = startWorkoutTimer w1
                        in case (isResting activeWorkout, restStartTime activeWorkout,
                                 restDuration activeWorkout) of
                             (True, Some restStart, Some d) \<Rightarrow>
                               if d = 0 then (None, w2)
                               else (let elapsed = t_call c - restStart;
                                         remaining = d - elapsed
                                     in if remaining > 0
                                        then (None, startRestTimer (remaining div 1000) c w2)
                                        else (None, stopResting w2))
                           | _ \<Rightarrow> (None, w2))
                  else (None, w1)))"

text \<open>The tail of \<open>initializeLiveWorkout\<close>: resume the persisted session, if there is one.\<close>

definition resumePersisted :: "clock \<Rightarrow> world \<Rightarrow> error option \<times> world" where
  "resumePersisted c w =
     (case getActiveWorkout w of None \<Rightarrow> (None, w) | Some a \<Rightarrow> resumeWorkout a c w)"

text \<open>
  \<open>finishWorkout\<close>.  \<open>confirmed\<close> is the answer to the confirmation dialog and
  \<open>api_ok\<close> the outcome of the POST that \<open>addWorkout\<close> awaits; the call is taken
  as one step, with no timer callback running while it awaits.  The date, type and
  notes strings of the record are formatting and are left out, and so is the page reload
  that ends a successful call.
\<close>

definition finishWorkout :: "bool \<Rightarrow> bool \<Rightarrow> int \<Rightarrow> world \<Rightarrow> error option \<times> world" where
  "finishWorkout confirmed api_ok now w =
     (case getActiveWorkout w of
        None \<Rightarrow> (None, w)
      | Some activeWorkout \<Rightarrow>
     (case getWorkoutProgramById (programId activeWorkout) w of
        None \<Rightarrow> (None, w)
      | Some program \<Rightarrow>
          if \<not> confirmed then (None, w)
          else
            (let durationMinutes = (now - startTime activeWorkout) div 60000;
                 structuredExercises =
                   map (\<lambda>ex. \<lparr>we_exerciseId = exerciseId ex,
                              we_elapsedMs = calculateExerciseElapsedMs (sets ex),
                              we_sets = sets ex\<rparr>)
                     (exercises activeWorkout)
             in case addWorkout
                       \<lparr>w_durationMinutes = durationMinutes,
                        w_programName = programName activeWorkout,
                        w_exercises = structuredExercises\<rparr> api_ok w of
                  Inl e \<Rightarrow> (Some e, w)
                | Inr w1 \<Rightarrow>
                    (let w2 = stopWorkoutTimer w1;
                         w3 = stopResting w2;
                         w4 = clearActiveWorkout w3
                     in (None, w4\<lparr>workoutStartTime := None\<rparr>)))))"

definition startWorkout :: "string \<Rightarrow> int \<Rightarrow> world \<Rightarrow> error option \<times> world" where
  "startWorkout programName' now w =
     (case find (\<lambda>p. p_name p = programName') (programs w) of
        None \<Rightarrow> (None, w)
      | Some program \<Rightarrow>
          (let activeWorkout = createActiveWorkout now program;
               w1 = saveActiveWorkout activeWorkout w;
               w2 = w1\<lparr>workoutStartTime := Some (startTime activeWorkout)\<rparr>
           in case renderExercises program activeWorkout w2 of
                Some e \<Rightarrow> (Some e, w2)
              | None \<Rightarrow> (None, startWorkoutTimer w2)))"

definition resetWorkout :: "bool \<Rightarrow> int \<Rightarrow> world \<Rightarrow> error option \<times> world" where
  "resetWorkout confirmed now w =
     (if \<not> confirmed then (None, w)
      else case getActiveWorkout w of
             None \<Rightarrow> (None, w)
           | Some activeWorkout \<Rightarrow>
          (case getWorkoutProgramById (programId activeWorkout) w of
             None \<Rightarrow> (None, w)
           | Some program \<Rightarrow>
               (let w1 = stopWorkoutTimer w;
                    w2 = stopResting w1;
                    w3 = w2\<lparr>restEndTime := None\<rparr>;
                    freshWorkout = createActiveWorkout now program;
                    w4 = saveActiveWorkout freshWorkout w3;
                    w5 = w4\<lparr>workoutStartTime := Some (startTime freshWorkout)\<rparr>
                in case renderExercises program freshWorkout w5 of
                     Some e \<Rightarrow> (Some e, w5)
                   | None \<Rightarrow> (None, startWorkoutTimer w5))))"

subsection \<open>Engine transitions as events\<close>

text \<open>
  The transitions that act on a running session without ending or replacing it, as the
  listeners of \<open>setupWorkoutControls\<close> and \<open>attachSetEventListeners\<close>, the rest
  interval and the page load trigger them, and \<open>startResting\<close> taken by itself.
\<close>

datatype event =
    CompleteSet nat nat "rat option"
  | StartResting int
  | StopResting
  | SkipRest
  | AddRestTime int
  | TogglePause
  | RestTick
  | Resume

fun dispatch :: "clock \<Rightarrow> event \<Rightarrow> world \<Rightarrow> world" where
  "dispatch c (CompleteSet ei si wt) w = snd (completeSet ei si wt c w)"
| "dispatch c (StartResting seconds) w = startResting seconds c w"
| "dispatch c StopResting w = stopResting w"
| "dispatch c SkipRest w = skipRest w"
| "dispatch c (AddRestTime seconds) w = addRestTime seconds w"
| "dispatch c TogglePause w = togglePauseWorkout c w"
| "dispatch c RestTick w = (if restTimer w then updateRestDisplay (t_call c) w else w)"
| "dispatch c Resume w = snd (resumePersisted c w)"

text \<open>A run of timed events, oldest first.\<close>

fun run :: "(clock \<times> event) list \<Rightarrow> world \<Rightarrow> world" where
  "run [] w = w"
| "run ((c, ev) # evs) w = run evs (dispatch c ev w)"

subsection \<open>Page actions\<close>

text \<open>
  Everything the page can do to the engine: start a program, reset, end, the engine
  events above, a page load (the module variables start afresh, then
  \<open>initializeLiveWorkout\<close> resumes the persisted session) and a change of the program
  library by the builder.  No listener calls \<open>startResting\<close> by itself: it is reached
  through \<open>completeSet\<close> only, so a bare \<open>StartResting\<close> does not come from the page.
\<close>

definition freshModule :: "world \<Rightarrow> world" where
  "freshModule w =
     w\<lparr>workoutTimer := False, restTimer := False, workoutStartTime := None,
       restEndTime := None\<rparr>"

datatype action =
    StartProgram string
  | ResetClicked bool
  | EndClicked bool bool
  | PageLoad
  | ProgramsSaved "WorkoutProgram list"
  | Engine event

fun fromPage :: "action \<Rightarrow> bool" where
  "fromPage (Engine (StartResting seconds)) = False"
| "fromPage act = True"

fun perform :: "clock \<Rightarrow> action \<Rightarrow> world \<Rightarrow> world" where
  "perform c (StartProgram n) w = snd (startWorkout n (t_call c) w)"
| "perform c (ResetClicked confirmed) w = snd (resetWorkout confirmed (t_call c) w)"
| "perform c (EndClicked confirmed api_ok) w = snd (finishWorkout confirmed api_ok (t_call c) w)"
| "perform c PageLoad w = snd (resumePersisted c (freshModule w))"
| "perform c (ProgramsSaved ps) w = w\<lparr>programs := ps\<rparr>"
| "perform c (Engine ev) w = dispatch c ev w"

fun pageRun :: "(clock \<times> action) list \<Rightarrow> world \<Rightarrow> world" where
  "pageRun [] w = w"
| "pageRun ((c, act) # acts) w = pageRun acts (perform c act w)"

subsection \<open>A sample installation\<close>

text \<open>The program of the spec's scenario (two sets of bench press, 75 seconds of rest)
  followed by three single-set exercises, on a page that has every element the engine
  looks up.\<close>

definition sampleProgram :: WorkoutProgram where
  "sampleProgram =
     \<lparr>p_id = ''program-1'', p_name = ''push'', displayName = ''Push Day'',
      p_exercises =
        [\<lparr>e_id = ''push-1'', e_name = ''Bench Press'', e_sets = 2, e_restTime = 75\<rparr>,
         \<lparr>e_id = ''push-2'', e_name = ''Shoulder Press'', e_sets = 1, e_restTime = 75\<rparr>,
         \<lparr>e_id = ''push-3'', e_name = ''Lateral Raises'', e_sets = 1, e_restTime = 75\<rparr>,
         \<lparr>e_id = ''push-4'', e_name = ''Tricep Dips'', e_sets = 1, e_restTime = 75\<rparr>]\<rparr>"

definition sampleWorld :: "ActiveWorkout option \<Rightarrow> world" where
  "sampleWorld a =
     \<lparr>active = a, programs = [sampleProgram], weights = NoBlob,
      weights_setItem_throws = False, workouts = [],
      workoutTimer = False, restTimer = False, workoutStartTime = None, restEndTime = None,
      el_exercise_list = True, el_rest_timer_container = True, el_rest_countdown = True,
      el_pause_workout_btn = True, el_workout_duration = True\<rparr>"

definition startedWorld :: "int \<Rightarrow> world" where
  "startedWorld t = snd (startWorkout ''push'' t (sampleWorld None))"

text \<open>The sample program after the builder removed all but its first exercise, after it
  added a fifth one, and with \<open>__proto__\<close> as the identifier of its first exercise.\<close>

definition shortProgram :: WorkoutProgram where
  "shortProgram = sampleProgram\<lparr>p_exercises := take 1 (p_exercises sampleProgram)\<rparr>"

definition longProgram :: WorkoutProgram where
  "longProgram =
     sampleProgram\<lparr>p_exercises := p_exercises sampleProgram @
       [\<lparr>e_id = ''push-5'', e_name = ''Tricep Pushdowns'', e_sets = 3, e_restTime = 75\<rparr>]\<rparr>"

definition protoProgram :: WorkoutProgram where
  "protoProgram =
     sampleProgram\<lparr>p_exercises :=
       [\<lparr>e_id = ''__proto__'', e_name = ''Bench Press'', e_sets = 2, e_restTime = 75\<rparr>]\<rparr>"

text \<open>Three set records of one exercise: two completed out of order, one still open.\<close>

definition sampleSets :: "ExerciseSet list" where
  "sampleSets =
     [\<lparr>setNumber = 1, completed = True, completedAt = Some 80000, weight = Some 100\<rparr>,
      \<lparr>setNumber = 2, completed = True, completedAt = Some 2000, weight = None\<rparr>,
      \<lparr>setNumber = 3, completed = False, completedAt = None, weight = None\<rparr>]"

text \<open>A stored session that is marked as resting (75 seconds, started at 2000), and the
  same with a rest of zero length.\<close>

definition restingSession :: ActiveWorkout where
  "restingSession =
     (createActiveWorkout 1000 sampleProgram)
       \<lparr>isResting := True, restStartTime := Some 2000, restDuration := Some 75000\<rparr>"

definition zeroRestSession :: ActiveWorkout where
  "zeroRestSession = restingSession\<lparr>restDuration := Some 0\<rparr>"

text \<open>Worlds that page actions reach from the sample installation with no stored session:
  the first set completed after the start; the program shortened by the builder after the
  start; a start of the program whose first exercise is called \<open>__proto__\<close>.\<close>

definition restingOnPage :: world where
  "restingOnPage =
     pageRun [(steady 1000, StartProgram ''push''),
              (steady 2000, Engine (CompleteSet 0 0 (Some 100)))] (sampleWorld None)"

definition shortenedWorld :: world where
  "shortenedWorld =
     pageRun [(steady 1000, StartProgram ''push''), (steady 1500, ProgramsSaved [shortProgram])]
       (sampleWorld None)"

definition protoWorld :: world where
  "protoWorld =
     pageRun [(steady 1000, StartProgram ''push'')] ((sampleWorld None)\<lparr>programs := [protoProgram]\<rparr>)"

section \<open>Observations of a world used in the statements\<close>

text \<open>The part of a session that only \<open>completeSet\<close>, a reset or a finish may change.\<close>

definition core :: "ActiveWorkout \<Rightarrow> string \<times> string \<times> int \<times> ActiveExercise list \<times> nat" where
  "core a = (programId a, programName a, startTime a, exercises a, currentExerciseIndex a)"

definition session_core :: "world \<Rightarrow> (string \<times> string \<times> int \<times> ActiveExercise list \<times> nat) option" where
  "session_core w = map_option core (active w)"

text \<open>The set record at position \<open>s\<close> of exercise \<open>e\<close> of the persisted session.\<close>

definition sessionSetAt :: "nat \<Rightarrow> nat \<Rightarrow> world \<Rightarrow> ExerciseSet option" where
  "sessionSetAt e s w =
     (case active w of
        None \<Rightarrow> None
      | Some a \<Rightarrow>
          if e < length (exercises a) \<and> s < length (sets (exercises a ! e))
          then Some (sets (exercises a ! e) ! s) else None)"

fun retargets :: "nat \<Rightarrow> nat \<Rightarrow> event \<Rightarrow> bool" where
  "retargets e s (CompleteSet ei si wt) = (ei = e \<and> si = s)"
| "retargets e s ev = False"

text \<open>
  Forward-only runs: every \<open>completeSet\<close> of the run targets the exercise the session
  points at or a later one, as the page does (only the current set of the current
  exercise has an enabled button).  \<open>indexTrace\<close> lists the current exercise index of
  the persisted session before the run and after each of its events.
\<close>

fun targetsForward :: "event \<Rightarrow> world \<Rightarrow> bool" where
  "targetsForward (CompleteSet ei si wt) w =
     (case active w of None \<Rightarrow> True | Some a \<Rightarrow> currentExerciseIndex a \<le> ei)"
| "targetsForward ev w = True"

fun forwardRun :: "(clock \<times> event) list \<Rightarrow> world \<Rightarrow> bool" where
  "forwardRun [] w = True"
| "forwardRun ((c, ev) # evs) w = (targetsForward ev w \<and> forwardRun evs (dispatch c ev w))"

definition sessionIndex :: "world \<Rightarrow> nat list" where
  "sessionIndex w = (case active w of None \<Rightarrow> [] | Some a \<Rightarrow> [currentExerciseIndex a])"

fun indexTrace :: "(clock \<times> event) list \<Rightarrow> world \<Rightarrow> nat list" where
  "indexTrace [] w = sessionIndex w"
| "indexTrace ((c, ev) # evs) w = sessionIndex w @ indexTrace evs (dispatch c ev w)"

text \<open>The persisted session, if any, carries no rest state.\<close>

definition restFree :: "world \<Rightarrow> bool" where
  "restFree w =
     (case active w of
        None \<Rightarrow> True
      | Some a \<Rightarrow> \<not> isResting a \<and> restStartTime a = None \<and> restDuration a = None)"

section \<open>Evaluation on the sample installation\<close>

lemmas world_defs = startedWorld_def startWorkout_def sampleWorld_def sampleProgram_def
  createActiveWorkout_def freshSets_def saveActiveWorkout_def startWorkoutTimer_def
  getActiveWorkout_def getWorkoutProgramById_def renderExercises_def steady_def

lemmas engine_defs = completeSet_def markCompleted_def findIndex_def startResting_def
  startRestTimer_def updateRestDisplay_def stopResting_def saveLastUsedWeight_def
  setWeightsItem_def togglePauseWorkout_def stopWorkoutTimer_def addRestTime_def
  resumeWorkout_def resumePersisted_def skipRest_def refreshLiveWorkout_def assignWeight_def

lemmas page_defs = shortenedWorld_def protoWorld_def shortProgram_def longProgram_def
  protoProgram_def freshModule_def

section \<open>Properties of session creation\<close>

lemma freshSets_length: "length (freshSets n) = n"
  by (simp add: freshSets_def)

lemma freshSets_numbers: "map setNumber (freshSets n) = [1..<Suc n]"
proof -
  have "map setNumber (freshSets n) = map Suc [0..<n]"
    by (simp add: freshSets_def comp_def)
  also have "\<dots> = [1..<Suc n]"
    by (simp add: map_Suc_upt)
  finally show ?thesis .
qed

lemma freshSets_incomplete: "s \<in> set (freshSets n) \<Longrightarrow> \<not> completed s \<and> completedAt s = None \<and> weight s = None"
  by (auto simp: freshSets_def)

text \<open>
  Claim C5.  Creating a session from a program \<open>P\<close> at time \<open>now\<close> gives one
  exercise-progress entry per exercise of \<open>P\<close>, in program order (the identifiers agree
  position by position); the \<open>i\<close>-th entry has exactly as many sets as the \<open>i\<close>-th
  exercise asks for, numbered \<open>1..N\<close> in order, none of them completed, and its current
  set index is 0; the session's current exercise index is 0, it is neither resting nor
  paused, and its start timestamp is \<open>now\<close>.
\<close>

theorem createActiveWorkout_fresh:
  "map exerciseId (exercises (createActiveWorkout now P)) = map e_id (p_exercises P)
   \<and> length (exercises (createActiveWorkout now P)) = length (p_exercises P)
   \<and> (\<forall>i < length (p_exercises P).
         length (sets (exercises (createActiveWorkout now P) ! i)) = e_sets (p_exercises P ! i)
         \<and> map setNumber (sets (exercises (createActiveWorkout now P) ! i))
             = [1..<Suc (e_sets (p_exercises P ! i))]
         \<and> (\<forall>s \<in> set (sets (exercises (createActiveWorkout now P) ! i)). \<not> completed s)
         \<and> currentSet (exercises (createActiveWorkout now P) ! i) = 0)
   \<and> currentExerciseIndex (createActiveWorkout now P) = 0
   \<and> \<not> isResting (createActiveWorkout now P)
   \<and> \<not> paused (createActiveWorkout now P)
   \<and> startTime (createActiveWorkout now P) = now"
  by (simp add: createActiveWorkout_def comp_def freshSets_length freshSets_numbers
        freshSets_incomplete)

theorem createActiveWorkout_fresh_witness:
  "length (p_exercises sampleProgram) = 4
   \<and> map exerciseId (exercises (createActiveWorkout 1000 sampleProgram))
       = [''push-1'', ''push-2'', ''push-3'', ''push-4'']
   \<and> length (sets (exercises (createActiveWorkout 1000 sampleProgram) ! 0)) = 2
   \<and> map setNumber (sets (exercises (createActiveWorkout 1000 sampleProgram) ! 0)) = [1, 2]
   \<and> \<not> completed (sets (exercises (createActiveWorkout 1000 sampleProgram) ! 0) ! 1)
   \<and> startTime (createActiveWorkout 1000 sampleProgram) = 1000"
  using createActiveWorkout_fresh [of 1000 sampleProgram]
  by (simp add: sampleProgram_def createActiveWorkout_def freshSets_def upt_rec)

section \<open>Properties of the per-exercise elapsed time\<close>

lemma fold_min_Min: "fold min ts (t::int) = Min (set (t # ts))"
  by (rule Min.set_eq_fold [symmetric])

lemma fold_max_Max: "fold max ts (t::int) = Max (set (t # ts))"
  by (rule Max.set_eq_fold [symmetric])

lemma completedTimestamps_set:
  "set (completedTimestamps ss) = {t. \<exists>s \<in> set ss. completed s \<and> completedAt s = Some t}"
  unfolding completedTimestamps_def
  by (induction ss) (auto simp: map_filter_simps split: option.splits)

lemma completedTimestamps_length:
  "length (completedTimestamps ss) = length (filter (\<lambda>s. completed s \<and> completedAt s \<noteq> None) ss)"
  by (induction ss) (auto simp: completedTimestamps_def map_filter_simps split: option.splits)

text \<open>
  Claim C9.  The elapsed time of an exercise is the latest minus the earliest timestamp
  among its sets that are completed and carry a timestamp; it is undefined exactly when
  no completed set carries a timestamp, and it is zero when exactly one does.
\<close>

theorem calculateExerciseElapsedMs_spec:
  "(calculateExerciseElapsedMs ss = None
      \<longleftrightarrow> filter (\<lambda>s. completed s \<and> completedAt s \<noteq> None) ss = [])
   \<and> (filter (\<lambda>s. completed s \<and> completedAt s \<noteq> None) ss \<noteq> [] \<longrightarrow>
        calculateExerciseElapsedMs ss
          = Some (Max {t. \<exists>s \<in> set ss. completed s \<and> completedAt s = Some t}
                  - Min {t. \<exists>s \<in> set ss. completed s \<and> completedAt s = Some t}))
   \<and> (length (filter (\<lambda>s. completed s \<and> completedAt s \<noteq> None) ss) = 1 \<longrightarrow>
        calculateExerciseElapsedMs ss = Some 0)"
proof -
  let ?ts = "completedTimestamps ss"
  let ?T = "{t. \<exists>s \<in> set ss. completed s \<and> completedAt s = Some t}"
  have len: "length ?ts = length (filter (\<lambda>s. completed s \<and> completedAt s \<noteq> None) ss)"
    by (rule completedTimestamps_length)
  have none: "calculateExerciseElapsedMs ss = None \<longleftrightarrow> ?ts = []"
    by (simp add: calculateExerciseElapsedMs_def Let_def split: list.split)
  have some: "calculateExerciseElapsedMs ss = Some (Max ?T - Min ?T)" if "?ts \<noteq> []"
  proof -
    from that obtain t ts where ts: "?ts = t # ts"
      by (cases ?ts) auto
    have T: "?T = set (t # ts)"
      using completedTimestamps_set [of ss] ts by simp
    have "Min (set (t # ts)) \<le> Max (set (t # ts))"
      by (rule Min_le_iff [THEN iffD2, OF _ _]) (auto intro: exI [of _ t])
    hence "max 0 (Max (set (t # ts)) - Min (set (t # ts))) = Max (set (t # ts)) - Min (set (t # ts))"
      by simp
    thus ?thesis
      unfolding calculateExerciseElapsedMs_def Let_def ts T fold_min_Min fold_max_Max
      by simp
  qed
  have one: "calculateExerciseElapsedMs ss = Some 0" if "length ?ts = 1"
  proof -
    from that obtain t where "?ts = [t]"
      by (cases ?ts) auto
    thus ?thesis
      by (simp add: calculateExerciseElapsedMs_def)
  qed
  have empty: "?ts = [] \<longleftrightarrow> filter (\<lambda>s. completed s \<and> completedAt s \<noteq> None) ss = []"
    using len by (simp only: length_0_conv [symmetric])
  show ?thesis
    using none some one by (simp only: empty len [symmetric]) blast
qed

theorem calculateExerciseElapsedMs_spec_witness:
  "filter (\<lambda>s. completed s \<and> completedAt s \<noteq> None) sampleSets \<noteq> []
   \<and> calculateExerciseElapsedMs sampleSets
       = Some (Max {t. \<exists>s \<in> set sampleSets. completed s \<and> completedAt s = Some t}
               - Min {t. \<exists>s \<in> set sampleSets. completed s \<and> completedAt s = Some t})
   \<and> calculateExerciseElapsedMs sampleSets = Some 78000
   \<and> length (filter (\<lambda>s. completed s \<and> completedAt s \<noteq> None) (take 1 sampleSets)) = 1
   \<and> calculateExerciseElapsedMs (take 1 sampleSets) = Some 0"
proof -
  have h1: "filter (\<lambda>s. completed s \<and> completedAt s \<noteq> None) sampleSets \<noteq> []"
    by (simp add: sampleSets_def)
  have h2: "length (filter (\<lambda>s. completed s \<and> completedAt s \<noteq> None) (take 1 sampleSets)) = 1"
    by (simp add: sampleSets_def)
  have v: "calculateExerciseElapsedMs sampleSets = Some 78000"
    by (simp add: sampleSets_def calculateExerciseElapsedMs_def completedTimestamps_def
          map_filter_simps)
  from calculateExerciseElapsedMs_spec [of sampleSets] calculateExerciseElapsedMs_spec [of "take 1 sampleSets"]
  show ?thesis
    using h1 h2 v by blast
qed

section \<open>Frame lemmas of the timer and rest transitions\<close>


lemma saveLastUsedWeight_active [simp]: "active (saveLastUsedWeight eid x w) = active w"
  by (simp add: saveLastUsedWeight_def setWeightsItem_def split: weights_blob.splits)

lemma saveLastUsedWeight_programs [simp]: "programs (saveLastUsedWeight eid x w) = programs w"
  by (simp add: saveLastUsedWeight_def setWeightsItem_def split: weights_blob.splits)

lemma stopResting_core [simp]: "session_core (stopResting w) = session_core w"
  by (simp add: stopResting_def session_core_def core_def getActiveWorkout_def
        saveActiveWorkout_def Let_def split: option.splits)

lemma updateRestDisplay_core [simp]: "session_core (updateRestDisplay now w) = session_core w"
  by (simp add: updateRestDisplay_def Let_def split: option.splits)

lemma session_core_restTimer [simp]: "session_core (w\<lparr>restTimer := b\<rparr>) = session_core w"
  by (simp add: session_core_def)

lemma session_core_restEndTime [simp]: "session_core (w\<lparr>restEndTime := b\<rparr>) = session_core w"
  by (simp add: session_core_def)

lemma session_core_workoutStartTime [simp]: "session_core (w\<lparr>workoutStartTime := b\<rparr>) = session_core w"
  by (simp add: session_core_def)

lemma startRestTimer_core [simp]: "session_core (startRestTimer seconds c w) = session_core w"
  by (simp add: startRestTimer_def Let_def)

lemma startWorkoutTimer_core [simp]: "session_core (startWorkoutTimer w) = session_core w"
  by (simp add: startWorkoutTimer_def session_core_def)

lemma stopWorkoutTimer_core [simp]: "session_core (stopWorkoutTimer w) = session_core w"
  by (simp add: stopWorkoutTimer_def session_core_def)

lemma session_core_save:
  "active w = Some a \<Longrightarrow> core a' = core a \<Longrightarrow> session_core (saveActiveWorkout a' w) = session_core w"
  by (simp add: session_core_def saveActiveWorkout_def)

lemma startResting_core [simp]: "session_core (startResting seconds c w) = session_core w"
  by (auto simp: startResting_def getActiveWorkout_def session_core_save core_def
        split: option.splits)

lemma addRestTime_core [simp]: "session_core (addRestTime seconds w) = session_core w"
  by (auto simp: addRestTime_def getActiveWorkout_def session_core_save core_def Let_def
        split: option.splits)

lemma togglePauseWorkout_core [simp]: "session_core (togglePauseWorkout c w) = session_core w"
  by (auto simp: togglePauseWorkout_def getActiveWorkout_def session_core_save core_def Let_def
        split: option.splits bool.splits)

lemma resumeWorkout_core [simp]: "session_core (snd (resumeWorkout a c w)) = session_core w"
  by (auto simp: resumeWorkout_def Let_def split: option.splits bool.splits)

lemma resumePersisted_core [simp]: "session_core (snd (resumePersisted c w)) = session_core w"
  by (simp add: resumePersisted_def split: option.splits)


section \<open>What completeSet leaves in the store\<close>

lemma findIndexFrom_Some:
  "findIndexFrom P i xs = Some k \<Longrightarrow> i \<le> k \<and> k < i + length xs \<and> P (xs ! (k - i)) k"
proof (induction xs arbitrary: i)
  case Nil
  then show ?case by simp
next
  case (Cons x xs)
  show ?case
  proof (cases "P x i")
    case True
    with Cons.prems show ?thesis by simp
  next
    case False
    with Cons.prems have "findIndexFrom P (Suc i) xs = Some k" by simp
    from Cons.IH [OF this] show ?thesis
      by (auto simp: Suc_diff_Suc less_eq_Suc_le)
  qed
qed

lemma findIndexFrom_first:
  "findIndexFrom P i xs = Some k \<Longrightarrow> j < k - i \<Longrightarrow> \<not> P (xs ! j) (i + j)"
proof (induction xs arbitrary: i j)
  case Nil
  then show ?case by simp
next
  case (Cons x xs)
  show ?case
  proof (cases "P x i")
    case True
    with Cons.prems show ?thesis by simp
  next
    case False
    with Cons.prems have k: "findIndexFrom P (Suc i) xs = Some k" by simp
    show ?thesis
    proof (cases j)
      case 0
      with False show ?thesis by simp
    next
      case (Suc j')
      with Cons.prems have "j' < k - Suc i" by simp
      from Cons.IH [OF k this] Suc show ?thesis by simp
    qed
  qed
qed

lemma findIndex_least:
  assumes "findIndex P xs = Some n"
  shows "n < length xs" and "P (xs ! n) n" and "\<forall>j<n. \<not> P (xs ! j) j"
  using findIndexFrom_Some [of P 0 xs n] findIndexFrom_first [of P 0 xs n] assms
  by (auto simp: findIndex_def)

lemma markCompleted_fields [simp]:
  "programId (markCompleted ei si now wt a) = programId a"
  "programName (markCompleted ei si now wt a) = programName a"
  "startTime (markCompleted ei si now wt a) = startTime a"
  "currentExerciseIndex (markCompleted ei si now wt a) = currentExerciseIndex a"
  "isResting (markCompleted ei si now wt a) = isResting a"
  "restStartTime (markCompleted ei si now wt a) = restStartTime a"
  "restDuration (markCompleted ei si now wt a) = restDuration a"
  "paused (markCompleted ei si now wt a) = paused a"
  "length (exercises (markCompleted ei si now wt a)) = length (exercises a)"
  by (simp_all add: markCompleted_def Let_def)

lemma markCompleted_sets_length [simp]:
  "length (sets (exercises (markCompleted ei si now wt a) ! e)) = length (sets (exercises a ! e))"
  by (cases "e = ei"; cases "ei < length (exercises a)") (simp_all add: markCompleted_def Let_def list_update_beyond)

lemma markCompleted_other:
  "(e, s) \<noteq> (ei, si) \<Longrightarrow>
   sets (exercises (markCompleted ei si now wt a) ! e) ! s = sets (exercises a ! e) ! s"
  by (cases "e = ei"; cases "ei < length (exercises a)") (auto simp: markCompleted_def Let_def nth_list_update list_update_beyond)

lemma markCompleted_target:
  "ei < length (exercises a) \<Longrightarrow> si < length (sets (exercises a ! ei)) \<Longrightarrow>
   sets (exercises (markCompleted ei si now wt a) ! ei) ! si
     = (sets (exercises a ! ei) ! si)\<lparr>completed := True, completedAt := Some now, weight := wt\<rparr>"
  by (simp add: markCompleted_def Let_def)

text \<open>What \<open>completeSet\<close> leaves in the store: the session untouched (an early return or
  an exception), or the marked copy with its current set moved, or with the current
  exercise moved past the target, or as marked.\<close>

lemma completeSet_result:
  assumes "active w = Some a"
  shows "active (snd (completeSet ei si wt c w)) = Some a
       \<or> (ei < length (exercises a) \<and> si < length (sets (exercises a ! ei))
          \<and> (\<exists>n. active (snd (completeSet ei si wt c w))
                    = Some ((markCompleted ei si (t_call c) wt a)\<lparr>exercises :=
                         (exercises (markCompleted ei si (t_call c) wt a))[ei :=
                            (exercises (markCompleted ei si (t_call c) wt a) ! ei)\<lparr>currentSet := n\<rparr>]\<rparr>)
                  \<or> (ei < n \<and> active (snd (completeSet ei si wt c w))
                        = Some ((markCompleted ei si (t_call c) wt a)\<lparr>currentExerciseIndex := n\<rparr>))
                  \<or> active (snd (completeSet ei si wt c w))
                        = Some (markCompleted ei si (t_call c) wt a)))"
proof -
  have adv: "ei < n"
    if "findIndex (\<lambda>ex idx. ei < idx \<and> list_ex (\<lambda>s. \<not> completed s) (sets ex)) xs = Some n"
    for n xs
    using findIndexFrom_Some [OF that [unfolded findIndex_def]] by simp
  show ?thesis
    using assms adv
    by (auto simp: completeSet_def getActiveWorkout_def saveActiveWorkout_def Let_def
          split: option.splits)
qed

lemma completeSet_cases [consumes 1, case_names Unchanged CurrentSet Advance Marked]:
  assumes "active w = Some a"
  obtains
    "active (snd (completeSet ei si wt c w)) = Some a"
  | n where "ei < length (exercises a)" and "si < length (sets (exercises a ! ei))"
      and "active (snd (completeSet ei si wt c w))
             = Some ((markCompleted ei si (t_call c) wt a)\<lparr>exercises :=
                  (exercises (markCompleted ei si (t_call c) wt a))[ei :=
                     (exercises (markCompleted ei si (t_call c) wt a) ! ei)\<lparr>currentSet := n\<rparr>]\<rparr>)"
  | n where "ei < length (exercises a)" and "si < length (sets (exercises a ! ei))"
      and "ei < n"
      and "active (snd (completeSet ei si wt c w))
             = Some ((markCompleted ei si (t_call c) wt a)\<lparr>currentExerciseIndex := n\<rparr>)"
  | "ei < length (exercises a)" and "si < length (sets (exercises a ! ei))"
      and "active (snd (completeSet ei si wt c w)) = Some (markCompleted ei si (t_call c) wt a)"
  using completeSet_result [OF assms, where ei = ei and si = si and wt = wt and c = c] by blast


lemma session_core_fields:
  assumes "session_core w' = session_core w"
  shows "map_option programId (active w') = map_option programId (active w)"
    and "map_option programName (active w') = map_option programName (active w)"
    and "map_option startTime (active w') = map_option startTime (active w)"
    and "map_option exercises (active w') = map_option exercises (active w)"
    and "map_option currentExerciseIndex (active w') = map_option currentExerciseIndex (active w)"
proof -
  show "map_option programId (active w') = map_option programId (active w)"
    using assms by (cases "active w"; cases "active w'") (simp_all add: session_core_def core_def)
  show "map_option programName (active w') = map_option programName (active w)"
    using assms by (cases "active w"; cases "active w'") (simp_all add: session_core_def core_def)
  show "map_option startTime (active w') = map_option startTime (active w)"
    using assms by (cases "active w"; cases "active w'") (simp_all add: session_core_def core_def)
  show "map_option exercises (active w') = map_option exercises (active w)"
    using assms by (cases "active w"; cases "active w'") (simp_all add: session_core_def core_def)
  show "map_option currentExerciseIndex (active w') = map_option currentExerciseIndex (active w)"
    using assms by (cases "active w"; cases "active w'") (simp_all add: session_core_def core_def)
qed

lemma completeSet_no_session: "active w = None \<Longrightarrow> snd (completeSet ei si wt c w) = w"
  by (simp add: completeSet_def getActiveWorkout_def)

lemma completeSet_identity:
  "map_option programId (active (snd (completeSet ei si wt c w))) = map_option programId (active w)
   \<and> map_option programName (active (snd (completeSet ei si wt c w))) = map_option programName (active w)
   \<and> map_option startTime (active (snd (completeSet ei si wt c w))) = map_option startTime (active w)"
proof (cases "active w")
  case None
  then show ?thesis by (simp add: completeSet_no_session)
next
  case (Some a)
  then show ?thesis
    by (cases rule: completeSet_cases [where ei = ei and si = si and wt = wt and c = c])
      (simp_all add: Some)
qed

lemma dispatch_core:
  "\<not> (\<exists>ei si wt. ev = CompleteSet ei si wt) \<Longrightarrow> session_core (dispatch c ev w) = session_core w"
  by (cases ev) (simp_all add: skipRest_def)


lemma sessionSetAt_core:
  "session_core w' = session_core w \<Longrightarrow> sessionSetAt e s w' = sessionSetAt e s w"
  using session_core_fields(4) [of w' w]
  by (cases "active w"; cases "active w'") (simp_all add: sessionSetAt_def)

lemma sessionSetAt_session:
  assumes "active w = Some a" and "e < length (exercises a)"
    and "s < length (sets (exercises a ! e))"
  shows "sessionSetAt e s w = Some (sets (exercises a ! e) ! s)"
  using assms by (simp add: sessionSetAt_def)

lemma completeSet_other_set:
  assumes "sessionSetAt e s w = Some r" and "(e, s) \<noteq> (ei, si)"
  shows "sessionSetAt e s (snd (completeSet ei si wt c w)) = Some r"
proof -
  from assms(1) obtain a where a: "active w = Some a"
    and e: "e < length (exercises a)" and s: "s < length (sets (exercises a ! e))"
    and r: "sets (exercises a ! e) ! s = r"
    by (auto simp: sessionSetAt_def split: option.splits if_splits)
  let ?m = "markCompleted ei si (t_call c) wt a"
  have m: "sets (exercises ?m ! e) ! s = r"
    using markCompleted_other [OF assms(2)] r by simp
  have cur: "sets (((exercises ?m)[ei := (exercises ?m ! ei)\<lparr>currentSet := n\<rparr>]) ! e)
               = sets (exercises ?m ! e)" for n
    using e by (cases "e = ei") simp_all
  from a show ?thesis
  proof (cases rule: completeSet_cases [where ei = ei and si = si and wt = wt and c = c])
    case Unchanged
    show ?thesis
      by (subst sessionSetAt_session [OF Unchanged]) (simp_all add: e s r)
  next
    case (CurrentSet n)
    show ?thesis
      by (subst sessionSetAt_session [OF CurrentSet(3)]) (simp_all add: cur e s m)
  next
    case (Advance n)
    show ?thesis
      by (subst sessionSetAt_session [OF Advance(4)]) (simp_all add: e s m)
  next
    case Marked
    show ?thesis
      by (subst sessionSetAt_session [OF Marked(3)]) (simp_all add: e s m)
  qed
qed

lemma dispatch_other_set:
  assumes "sessionSetAt e s w = Some r" and "\<not> retargets e s ev"
  shows "sessionSetAt e s (dispatch c ev w) = Some r"
proof (cases "\<exists>ei si wt. ev = CompleteSet ei si wt")
  case True
  then obtain ei si wt where ev: "ev = CompleteSet ei si wt" by blast
  with assms(2) have "(e, s) \<noteq> (ei, si)" by auto
  from completeSet_other_set [OF assms(1) this] ev show ?thesis by simp
next
  case False
  from sessionSetAt_core [OF dispatch_core [OF this]] assms(1) show ?thesis
    by simp
qed

section \<open>Completed sets\<close>

lemma dispatch_other_set_run:
  assumes "sessionSetAt e s w = Some r"
    and "list_all (\<lambda>(c, ev). \<not> retargets e s ev) evs"
  shows "sessionSetAt e s (run evs w) = Some r"
  using assms
proof (induction evs arbitrary: w)
  case Nil
  then show ?case by simp
next
  case (Cons x evs)
  obtain c ev where x: "x = (c, ev)" by (cases x)
  with Cons.prems have "\<not> retargets e s ev" and rest: "list_all (\<lambda>(c, ev). \<not> retargets e s ev) evs"
    by simp_all
  from dispatch_other_set [OF Cons.prems(1) this(1)]
  have "sessionSetAt e s (dispatch c ev w) = Some r" .
  from Cons.IH [OF this rest] x show ?case by simp
qed

text \<open>A \<open>completeSet\<close> on a set that is already completed leaves it completed, with its
  number; only the timestamp and the load can differ afterwards.\<close>

lemma completeSet_same_set:
  assumes "sessionSetAt e s w = Some r" and "completed r"
  shows "\<exists>r'. sessionSetAt e s (snd (completeSet e s wt c w)) = Some r'
           \<and> completed r' \<and> setNumber r' = setNumber r"
proof -
  from assms(1) obtain a where a: "active w = Some a"
    and e: "e < length (exercises a)" and s: "s < length (sets (exercises a ! e))"
    and r: "sets (exercises a ! e) ! s = r"
    by (auto simp: sessionSetAt_def split: option.splits if_splits)
  let ?m = "markCompleted e s (t_call c) wt a"
  have m: "sets (exercises ?m ! e) ! s
             = r\<lparr>completed := True, completedAt := Some (t_call c), weight := wt\<rparr>"
    using markCompleted_target [OF e s] r by simp
  have cur: "sets (((exercises ?m)[e := (exercises ?m ! e)\<lparr>currentSet := n\<rparr>]) ! e)
               = sets (exercises ?m ! e)" for n
    using e by simp
  from a show ?thesis
  proof (cases rule: completeSet_cases [where ei = e and si = s and wt = wt and c = c])
    case Unchanged
    show ?thesis
      by (subst sessionSetAt_session [OF Unchanged]) (simp_all add: e s r assms(2))
  next
    case (CurrentSet n)
    show ?thesis
      by (subst sessionSetAt_session [OF CurrentSet(3)]) (simp_all add: cur e s m)
  next
    case (Advance n)
    show ?thesis
      by (subst sessionSetAt_session [OF Advance(4)]) (simp_all add: e s m)
  next
    case Marked
    show ?thesis
      by (subst sessionSetAt_session [OF Marked(3)]) (simp_all add: e s m)
  qed
qed

lemma dispatch_completed_set:
  assumes "sessionSetAt e s w = Some r" and "completed r"
  shows "\<exists>r'. sessionSetAt e s (dispatch c ev w) = Some r'
           \<and> completed r' \<and> setNumber r' = setNumber r"
proof (cases "retargets e s ev")
  case True
  then obtain wt where "ev = CompleteSet e s wt"
    by (cases ev) auto
  with completeSet_same_set [OF assms, of wt c] show ?thesis by simp
next
  case False
  from dispatch_other_set [OF assms(1) False, of c] assms(2) show ?thesis by simp
qed

lemma run_completed_set:
  assumes "sessionSetAt e s w = Some r" and "completed r"
  shows "\<exists>r'. sessionSetAt e s (run evs w) = Some r'
           \<and> completed r' \<and> setNumber r' = setNumber r"
  using assms
proof (induction evs arbitrary: w r)
  case Nil
  then show ?case by simp
next
  case (Cons x evs)
  obtain c ev where x: "x = (c, ev)" by (cases x)
  from dispatch_completed_set [OF Cons.prems, of c ev]
  obtain r' where r': "sessionSetAt e s (dispatch c ev w) = Some r'" "completed r'"
    "setNumber r' = setNumber r" by blast
  from Cons.IH [OF r'(1,2)] r'(3) x show ?case by simp
qed

text \<open>
  Claim C3, as stated, fails: \<open>completeSet\<close> has no guard against a target that is
  already completed, and a second call on the same set writes a new timestamp and load.
  The \<open>completed\<close> flag stays true.
\<close>

theorem completed_set_rewritten_counterexample:
  "sessionSetAt 0 0 (run [(steady 2000, CompleteSet 0 0 (Some 100))] (startedWorld 1000))
     = Some \<lparr>setNumber = 1, completed = True, completedAt = Some 2000, weight = Some 100\<rparr>
   \<and> sessionSetAt 0 0
       (run [(steady 2000, CompleteSet 0 0 (Some 100)), (steady 3000, CompleteSet 0 0 None)]
          (startedWorld 1000))
     = Some \<lparr>setNumber = 1, completed = True, completedAt = Some 3000, weight = None\<rparr>"
  by (simp add: sessionSetAt_def world_defs engine_defs Let_def upt_rec)

text \<open>
  Claim C3, amended.  Once a set record is completed, no run of engine events
  (\<open>completeSet\<close> on any target, rest start, expiry and skip, rest extension, pause
  toggles, timer ticks, resume) changes its \<open>completed\<close> flag: the record stays in
  place, completed, under its set number.  Its \<open>completedAt\<close> and \<open>weight\<close> fields
  stay as they are too in every run in which no \<open>completeSet\<close> targets that same set
  again; such a call is the only operation that rewrites them.
\<close>

theorem completed_set_write_once:
  assumes "sessionSetAt e s w = Some r" and "completed r"
  shows "(\<exists>r'. sessionSetAt e s (run evs w) = Some r'
            \<and> completed r' \<and> setNumber r' = setNumber r)
       \<and> (list_all (\<lambda>(c, ev). \<not> retargets e s ev) evs \<longrightarrow>
            sessionSetAt e s (run evs w) = Some r)"
  using run_completed_set [OF assms] dispatch_other_set_run [OF assms(1)]
  by blast

theorem completed_set_write_once_witness:
  "sessionSetAt 0 0 (run [(steady 2000, CompleteSet 0 0 (Some 100))] (startedWorld 1000))
     = Some \<lparr>setNumber = 1, completed = True, completedAt = Some 2000, weight = Some 100\<rparr>
   \<and> list_all (\<lambda>(c, ev). \<not> retargets 0 0 ev)
       [(steady 2500, TogglePause), (steady 3000, CompleteSet 0 1 None),
        (steady 3500, AddRestTime 30), (steady 4000, SkipRest),
        (steady 5000, CompleteSet 1 0 (Some 40))]
   \<and> sessionSetAt 0 0
       (run [(steady 2500, TogglePause), (steady 3000, CompleteSet 0 1 None),
             (steady 3500, AddRestTime 30), (steady 4000, SkipRest),
             (steady 5000, CompleteSet 1 0 (Some 40))]
          (run [(steady 2000, CompleteSet 0 0 (Some 100))] (startedWorld 1000)))
     = Some \<lparr>setNumber = 1, completed = True, completedAt = Some 2000, weight = Some 100\<rparr>
   \<and> (\<exists>r'. sessionSetAt 0 0
              (run [(steady 3000, CompleteSet 0 0 None), (steady 3500, TogglePause)]
                 (run [(steady 2000, CompleteSet 0 0 (Some 100))] (startedWorld 1000)))
              = Some r' \<and> completed r' \<and> setNumber r' = 1)"
proof -
  let ?r = "\<lparr>setNumber = 1, completed = True, completedAt = Some 2000, weight = Some 100\<rparr>"
  have h1: "sessionSetAt 0 0 (run [(steady 2000, CompleteSet 0 0 (Some 100))] (startedWorld 1000))
              = Some ?r"
    by (simp add: sessionSetAt_def world_defs engine_defs Let_def upt_rec)
  have h2: "completed ?r"
    by simp
  have h3: "list_all (\<lambda>(c, ev). \<not> retargets 0 0 ev)
       [(steady 2500, TogglePause), (steady 3000, CompleteSet 0 1 None),
        (steady 3500, AddRestTime 30), (steady 4000, SkipRest),
        (steady 5000, CompleteSet 1 0 (Some 40))]"
    by simp
  from completed_set_write_once [OF h1 h2,
      of "[(steady 2500, TogglePause), (steady 3000, CompleteSet 0 1 None),
           (steady 3500, AddRestTime 30), (steady 4000, SkipRest),
           (steady 5000, CompleteSet 1 0 (Some 40))]"]
    completed_set_write_once [OF h1 h2,
      of "[(steady 3000, CompleteSet 0 0 None), (steady 3500, TogglePause)]"]
    h1 h3
  show ?thesis by simp
qed

text \<open>
  Claim C10.  Every engine transition other than reset and finish (\<open>completeSet\<close> on any
  target, rest start, expiry and skip, rest extension, pause toggle, timer tick, resume)
  leaves the persisted session's \<open>programId\<close>, \<open>programName\<close> and \<open>startTime\<close>
  unchanged, and neither creates nor removes the session.
\<close>

theorem dispatch_identity_frame:
  "map_option programId (active (dispatch c ev w)) = map_option programId (active w)
   \<and> map_option programName (active (dispatch c ev w)) = map_option programName (active w)
   \<and> map_option startTime (active (dispatch c ev w)) = map_option startTime (active w)"
proof (cases "\<exists>ei si wt. ev = CompleteSet ei si wt")
  case True
  then obtain ei si wt where "ev = CompleteSet ei si wt" by blast
  then have "dispatch c ev w = snd (completeSet ei si wt c w)" by simp
  then show ?thesis
    using completeSet_identity [of ei si wt c w] by (simp only:)
next
  case False
  hence core: "session_core (dispatch c ev w) = session_core w"
    by (rule dispatch_core)
  show ?thesis
    using session_core_fields(1) [OF core] session_core_fields(2) [OF core]
      session_core_fields(3) [OF core]
    by (intro conjI)
qed

theorem dispatch_identity_frame_witness:
  "map_option programId (active (dispatch (steady 2000) (CompleteSet 0 0 (Some 100)) (startedWorld 1000)))
     = Some ''program-1''
   \<and> map_option programName (active (dispatch (steady 2000) (CompleteSet 0 0 (Some 100)) (startedWorld 1000)))
     = Some ''Push Day''
   \<and> map_option startTime (active (dispatch (steady 2000) (CompleteSet 0 0 (Some 100)) (startedWorld 1000)))
     = Some 1000"
proof -
  have "active (startedWorld 1000) = Some (createActiveWorkout 1000 sampleProgram)"
    by (simp add: world_defs)
  hence "map_option programId (active (startedWorld 1000)) = Some ''program-1''"
    and "map_option programName (active (startedWorld 1000)) = Some ''Push Day''"
    and "map_option startTime (active (startedWorld 1000)) = Some 1000"
    by (simp_all add: createActiveWorkout_def sampleProgram_def)
  with dispatch_identity_frame [of "steady 2000" "CompleteSet 0 0 (Some 100)" "startedWorld 1000"]
  show ?thesis by (simp only:)
qed

section \<open>Forward-only exercise advancement\<close>

lemma dispatch_index_forward:
  assumes "active w = Some a" and "targetsForward ev w"
  shows "\<exists>a'. active (dispatch c ev w) = Some a'
           \<and> currentExerciseIndex a \<le> currentExerciseIndex a'"
proof (cases "\<exists>ei si wt. ev = CompleteSet ei si wt")
  case True
  then obtain ei si wt where ev: "ev = CompleteSet ei si wt" by blast
  with assms have le: "currentExerciseIndex a \<le> ei" by simp
  from assms(1) have "\<exists>a'. active (snd (completeSet ei si wt c w)) = Some a'
           \<and> currentExerciseIndex a \<le> currentExerciseIndex a'"
  proof (cases rule: completeSet_cases [where ei = ei and si = si and wt = wt and c = c])
    case Unchanged
    then show ?thesis by simp
  next
    case (CurrentSet n)
    then show ?thesis by simp
  next
    case (Advance n)
    with le show ?thesis by simp
  next
    case Marked
    then show ?thesis by simp
  qed
  with ev show ?thesis by simp
next
  case False
  from session_core_fields(5) [OF dispatch_core [OF False, of c w]] assms(1)
  show ?thesis by (cases "active (dispatch c ev w)") simp_all
qed

lemma indexTrace_head:
  "active w = Some a \<Longrightarrow> \<exists>tr. indexTrace evs w = currentExerciseIndex a # tr"
  by (cases evs) (auto simp: sessionIndex_def)

lemma indexTrace_length:
  "active w = Some a \<Longrightarrow> forwardRun evs w \<Longrightarrow> length (indexTrace evs w) = Suc (length evs)"
proof (induction evs arbitrary: w a)
  case Nil
  then show ?case by (simp add: sessionIndex_def)
next
  case (Cons x evs)
  obtain c ev where x: "x = (c, ev)" by (cases x)
  with Cons.prems have fw: "targetsForward ev w" and rest: "forwardRun evs (dispatch c ev w)"
    by simp_all
  from dispatch_index_forward [OF Cons.prems(1) fw, of c]
  obtain a' where a': "active (dispatch c ev w) = Some a'" by blast
  from Cons.IH [OF a' rest] Cons.prems(1) x show ?case
    by (simp add: sessionIndex_def)
qed

text \<open>
  Claim C2, as stated, fails: \<open>completeSet\<close> searches for the next exercise after the
  \<^emph>\<open>targeted\<close> exercise, not after the current one, so a call on an earlier exercise can
  move the pointer back.  With four exercises, completing the only set of exercise 2 moves
  the pointer to 3; completing the two sets of exercise 0 afterwards moves it back to 1.
\<close>

theorem index_rewinds_counterexample:
  "indexTrace [(steady 2000, CompleteSet 2 0 None), (steady 3000, CompleteSet 0 0 None),
               (steady 4000, CompleteSet 0 1 None)] (startedWorld 1000) = [0, 3, 3, 1]
   \<and> \<not> sorted (indexTrace [(steady 2000, CompleteSet 2 0 None), (steady 3000, CompleteSet 0 0 None),
               (steady 4000, CompleteSet 0 1 None)] (startedWorld 1000))"
proof -
  have "indexTrace [(steady 2000, CompleteSet 2 0 None), (steady 3000, CompleteSet 0 0 None),
               (steady 4000, CompleteSet 0 1 None)] (startedWorld 1000) = [0, 3, 3, 1]"
    by (simp add: sessionIndex_def world_defs engine_defs Let_def upt_rec)
  thus ?thesis by simp
qed

text \<open>
  Claim C2, amended.  Across every run of engine events in which each \<open>completeSet\<close>
  targets the exercise the session currently points at or a later one (as the page does:
  only the current set of the current exercise can be completed), the current exercise
  index of the persisted session never decreases; the session stays in the store
  throughout, so the trace has one entry per point of the run.
\<close>

theorem index_never_decreases_forward:
  assumes "forwardRun evs w"
  shows "sorted (indexTrace evs w)
         \<and> (active w \<noteq> None \<longrightarrow> length (indexTrace evs w) = Suc (length evs))"
proof -
  have "sorted (indexTrace evs w)"
    using assms
  proof (induction evs arbitrary: w)
    case Nil
    then show ?case by (simp add: sessionIndex_def split: option.splits)
  next
    case (Cons x evs)
    obtain c ev where x: "x = (c, ev)" by (cases x)
    with Cons.prems have fw: "targetsForward ev w" and rest: "forwardRun evs (dispatch c ev w)"
      by simp_all
    from Cons.IH [OF rest] have sorted': "sorted (indexTrace evs (dispatch c ev w))" .
    show ?case
    proof (cases "active w")
      case None
      with sorted' x show ?thesis by (simp add: sessionIndex_def)
    next
      case (Some a)
      from dispatch_index_forward [OF Some fw, of c]
      obtain a' where a': "active (dispatch c ev w) = Some a'"
        and le: "currentExerciseIndex a \<le> currentExerciseIndex a'" by blast
      from indexTrace_head [OF a', of evs]
      obtain tr where tr: "indexTrace evs (dispatch c ev w) = currentExerciseIndex a' # tr"
        by blast
      with sorted' le have "sorted (currentExerciseIndex a # currentExerciseIndex a' # tr)"
        by auto
      with tr Some x show ?thesis by (simp add: sessionIndex_def)
    qed
  qed
  moreover have "length (indexTrace evs w) = Suc (length evs)" if "active w \<noteq> None"
    using that assms indexTrace_length by blast
  ultimately show ?thesis by blast
qed

theorem index_never_decreases_forward_witness:
  "forwardRun [(steady 2000, CompleteSet 0 0 (Some 100)), (steady 3000, CompleteSet 0 1 None),
               (steady 3500, TogglePause), (steady 4000, CompleteSet 1 0 None)] (startedWorld 1000)
   \<and> sorted (indexTrace [(steady 2000, CompleteSet 0 0 (Some 100)), (steady 3000, CompleteSet 0 1 None),
               (steady 3500, TogglePause), (steady 4000, CompleteSet 1 0 None)] (startedWorld 1000))
   \<and> length (indexTrace [(steady 2000, CompleteSet 0 0 (Some 100)), (steady 3000, CompleteSet 0 1 None),
               (steady 3500, TogglePause), (steady 4000, CompleteSet 1 0 None)] (startedWorld 1000)) = 5"
proof -
  have fw: "forwardRun [(steady 2000, CompleteSet 0 0 (Some 100)), (steady 3000, CompleteSet 0 1 None),
               (steady 3500, TogglePause), (steady 4000, CompleteSet 1 0 None)] (startedWorld 1000)"
    by (simp add: world_defs engine_defs Let_def upt_rec)
  have act: "active (startedWorld 1000) \<noteq> None"
    by (simp add: world_defs)
  from index_never_decreases_forward [OF fw] fw act show ?thesis
    by simp
qed

section \<open>Finishing a session\<close>

text \<open>
  Claim C8.  If the external save of the completion record fails, \<open>finishWorkout\<close> stops
  at the re-thrown error with the world as it was: the persisted session is still in the
  store, unchanged, and the timers are untouched.  A session is only ever cleared by a
  call that was confirmed and whose save succeeded, and such a call does clear it.
\<close>

theorem finishWorkout_save_failure:
  "(\<not> api_ok \<longrightarrow> snd (finishWorkout confirmed api_ok now w) = w)
   \<and> (active w \<noteq> None \<and> active (snd (finishWorkout confirmed api_ok now w)) = None
        \<longrightarrow> api_ok \<and> confirmed)
   \<and> (active w = Some a \<and> getWorkoutProgramById (programId a) w \<noteq> None \<and> confirmed \<and> \<not> api_ok
        \<longrightarrow> fst (finishWorkout confirmed api_ok now w) = Some SaveFailed)
   \<and> (active w = Some a \<and> getWorkoutProgramById (programId a) w \<noteq> None \<and> confirmed \<and> api_ok
        \<longrightarrow> active (snd (finishWorkout confirmed api_ok now w)) = None)"
proof (intro conjI impI)
  assume "\<not> api_ok"
  then show "snd (finishWorkout confirmed api_ok now w) = w"
    by (simp add: finishWorkout_def addWorkout_def getActiveWorkout_def Let_def
          split: option.splits)
next
  assume h: "active w \<noteq> None \<and> active (snd (finishWorkout confirmed api_ok now w)) = None"
  show "api_ok"
  proof (rule ccontr)
    assume "\<not> api_ok"
    hence "snd (finishWorkout confirmed api_ok now w) = w"
      by (simp add: finishWorkout_def addWorkout_def getActiveWorkout_def Let_def
            split: option.splits)
    with h show False by auto
  qed
  show "confirmed"
  proof (rule ccontr)
    assume "\<not> confirmed"
    hence "snd (finishWorkout confirmed api_ok now w) = w"
      by (simp add: finishWorkout_def getActiveWorkout_def split: option.splits)
    with h show False by auto
  qed
next
  assume "active w = Some a \<and> getWorkoutProgramById (programId a) w \<noteq> None \<and> confirmed \<and> \<not> api_ok"
  then show "fst (finishWorkout confirmed api_ok now w) = Some SaveFailed"
    by (auto simp: finishWorkout_def addWorkout_def getActiveWorkout_def Let_def)
next
  assume "active w = Some a \<and> getWorkoutProgramById (programId a) w \<noteq> None \<and> confirmed \<and> api_ok"
  then show "active (snd (finishWorkout confirmed api_ok now w)) = None"
    by (auto simp: finishWorkout_def addWorkout_def getActiveWorkout_def Let_def
          clearActiveWorkout_def)
qed

theorem finishWorkout_save_failure_witness:
  "finishWorkout True False 5000 (startedWorld 1000) = (Some SaveFailed, startedWorld 1000)
   \<and> active (startedWorld 1000) = Some (createActiveWorkout 1000 sampleProgram)
   \<and> active (snd (finishWorkout True True 5000 (startedWorld 1000))) = None"
proof -
  have a: "active (startedWorld 1000) = Some (createActiveWorkout 1000 sampleProgram)"
    by (simp add: world_defs)
  have p: "getWorkoutProgramById (programId (createActiveWorkout 1000 sampleProgram)) (startedWorld 1000) \<noteq> None"
    by (simp add: world_defs)
  from finishWorkout_save_failure [of False True 5000 "startedWorld 1000" "createActiveWorkout 1000 sampleProgram"]
    finishWorkout_save_failure [of True True 5000 "startedWorld 1000" "createActiveWorkout 1000 sampleProgram"]
    a p
  show ?thesis
    by (simp add: prod_eq_iff)
qed

section \<open>Weight memory on set completion\<close>

lemma saveActiveWorkout_weights [simp]: "weights (saveActiveWorkout a w) = weights w"
  by (simp add: saveActiveWorkout_def)

lemma stopResting_weights [simp]: "weights (stopResting w) = weights w"
  by (simp add: stopResting_def getActiveWorkout_def Let_def split: option.splits)

lemma updateRestDisplay_weights [simp]: "weights (updateRestDisplay now w) = weights w"
  by (simp add: updateRestDisplay_def Let_def split: option.splits)

lemma startRestTimer_weights [simp]: "weights (startRestTimer seconds c w) = weights w"
  by (simp add: startRestTimer_def Let_def)

lemma startResting_weights [simp]: "weights (startResting seconds c w) = weights w"
  by (simp add: startResting_def getActiveWorkout_def split: option.splits)

text \<open>The program library and the page elements are not touched on the way to the save.\<close>

lemma stopResting_page [simp]:
  "programs (stopResting w) = programs w" "el_exercise_list (stopResting w) = el_exercise_list w"
  by (simp_all add: stopResting_def getActiveWorkout_def saveActiveWorkout_def Let_def
        split: option.splits)

lemma updateRestDisplay_page [simp]:
  "programs (updateRestDisplay now w) = programs w"
  "el_exercise_list (updateRestDisplay now w) = el_exercise_list w"
  by (simp_all add: updateRestDisplay_def Let_def split: option.splits)

lemma startResting_page [simp]:
  "programs (startResting seconds c w) = programs w"
  "el_exercise_list (startResting seconds c w) = el_exercise_list w"
  by (simp_all add: startResting_def startRestTimer_def getActiveWorkout_def
        saveActiveWorkout_def Let_def split: option.splits)

lemma saveLastUsedWeight_page [simp]:
  "el_exercise_list (saveLastUsedWeight eid x w) = el_exercise_list w"
  by (simp add: saveLastUsedWeight_def setWeightsItem_def split: weights_blob.splits)

lemma saveLastUsedWeight_written:
  "weights w \<noteq> Corrupt \<Longrightarrow> \<not> weights_setItem_throws w \<Longrightarrow> eid \<noteq> ''__proto__'' \<Longrightarrow>
   getLastUsedWeight eid (saveLastUsedWeight eid x w) = Some x"
  by (simp add: saveLastUsedWeight_def setWeightsItem_def getLastUsedWeight_def assignWeight_def
        split: weights_blob.splits)

lemma saveLastUsedWeight_failed:
  "weights w = Corrupt \<or> weights_setItem_throws w \<Longrightarrow>
   weights (saveLastUsedWeight eid x w) = weights w"
  by (auto simp: saveLastUsedWeight_def setWeightsItem_def split: weights_blob.splits)

lemma refresh_after_save:
  assumes "getWorkoutProgramById (programId a) w = Some program"
    and "programs w2 = programs w" and "el_exercise_list w2 = el_exercise_list w"
    and "programId a2 = programId a" and "length (exercises a2) = length (exercises a)"
  shows "refreshLiveWorkout (saveActiveWorkout a2 w2) = renderExercises program a w"
  using assms
  by (simp add: refreshLiveWorkout_def renderExercises_def getActiveWorkout_def
        getWorkoutProgramById_def saveActiveWorkout_def)

lemma completeSet_in_range:
  assumes "active w = Some a" and "getWorkoutProgramById (programId a) w = Some program"
    and "ei < length (exercises a)" and "si < length (sets (exercises a ! ei))"
    and "ei < length (p_exercises program)"
  shows "\<exists>a2 w2. completeSet ei si wt c w = (renderExercises program a w, saveActiveWorkout a2 w2)
           \<and> weights w2 = weights (case wt of
                                      None \<Rightarrow> w
                                    | Some x \<Rightarrow>
                                        if x \<noteq> 0
                                        then saveLastUsedWeight (e_id (p_exercises program ! ei)) x w
                                        else w)
           \<and> length (exercises a2) = length (exercises a)
           \<and> length (sets (exercises a2 ! ei)) = length (sets (exercises a ! ei))
           \<and> sets (exercises a2 ! ei) ! si
               = (sets (exercises a ! ei) ! si)\<lparr>completed := True, completedAt := Some (t_call c),
                                                weight := wt\<rparr>"
proof -
  let ?m = "markCompleted ei si (t_call c) wt a"
  let ?w1 = "case wt of
               None \<Rightarrow> w
             | Some x \<Rightarrow>
                 if x \<noteq> 0 then saveLastUsedWeight (e_id (p_exercises program ! ei)) x w else w"
  have tgt: "sets (exercises ?m ! ei) ! si
               = (sets (exercises a ! ei) ! si)\<lparr>completed := True, completedAt := Some (t_call c),
                                                weight := wt\<rparr>"
    using assms(3,4) by (rule markCompleted_target)
  have w1: "programs ?w1 = programs w" "el_exercise_list ?w1 = el_exercise_list w"
    by (simp_all split: option.splits)
  show ?thesis
  proof (cases "findIndex (\<lambda>s i. \<not> completed s) (sets (exercises ?m ! ei))")
    case None
    let ?a2 = "case findIndex (\<lambda>ex idx. ei < idx \<and> list_ex (\<lambda>s. \<not> completed s) (sets ex))
                      (exercises ?m) of
                 Some n \<Rightarrow> ?m\<lparr>currentExerciseIndex := n\<rparr>
               | None \<Rightarrow> ?m"
    have a2: "exercises ?a2 = exercises ?m" "programId ?a2 = programId a"
      by (simp_all split: option.splits)
    have "completeSet ei si wt c w
            = (refreshLiveWorkout (saveActiveWorkout ?a2 ?w1), saveActiveWorkout ?a2 ?w1)"
      using assms None
      by (simp add: completeSet_def getActiveWorkout_def Let_def split: option.splits)
    moreover have "refreshLiveWorkout (saveActiveWorkout ?a2 ?w1) = renderExercises program a w"
      using refresh_after_save [OF assms(2) w1 a2(2)] a2(1) by simp
    ultimately show ?thesis
      using tgt a2(1) by (intro exI [of _ ?a2] exI [of _ ?w1]) simp
  next
    case (Some n)
    let ?a2 = "?m\<lparr>exercises := (exercises ?m)[ei := (exercises ?m ! ei)\<lparr>currentSet := n\<rparr>]\<rparr>"
    let ?w2 = "startResting (e_restTime (p_exercises program ! ei)) c ?w1"
    have w2: "programs ?w2 = programs w" "el_exercise_list ?w2 = el_exercise_list w"
      using w1 by simp_all
    have a2: "sets (exercises ?a2 ! ei) = sets (exercises ?m ! ei)" "programId ?a2 = programId a"
      "length (exercises ?a2) = length (exercises a)"
      using assms(3) by simp_all
    have "completeSet ei si wt c w
            = (refreshLiveWorkout (saveActiveWorkout ?a2 ?w2), saveActiveWorkout ?a2 ?w2)"
      using assms Some
      by (simp add: completeSet_def getActiveWorkout_def Let_def split: option.splits)
    moreover have "refreshLiveWorkout (saveActiveWorkout ?a2 ?w2) = renderExercises program a w"
      using refresh_after_save [OF assms(2) w2 a2(2,3)] by simp
    ultimately show ?thesis
      using tgt a2 by (intro exI [of _ ?a2] exI [of _ ?w2]) simp
  qed
qed


text \<open>
  Claim C7, as stated, fails.  For a load of 0 the guard \<open>if (weight)\<close> of
  \<open>completeSet\<close> is false: the set records the load 0 and the weight memory is not
  written.  When the builder has removed the targeted exercise from the program, reading
  \<open>exercise.id\<close> throws outside the \<open>try\<close> of the write, before the save: the
  completion is not persisted.  Under the identifier \<open>__proto__\<close> the assignment stores
  nothing.
\<close>

theorem zero_load_not_remembered_counterexample:
  "fst (completeSet 0 0 (Some 0) (steady 2000) (startedWorld 1000)) = None
   \<and> sessionSetAt 0 0 (snd (completeSet 0 0 (Some 0) (steady 2000) (startedWorld 1000)))
       = Some \<lparr>setNumber = 1, completed = True, completedAt = Some 2000, weight = Some 0\<rparr>
   \<and> getLastUsedWeight ''push-1''
        (snd (completeSet 0 0 (Some 0) (steady 2000) (startedWorld 1000))) = None
   \<and> weights (snd (completeSet 0 0 (Some 0) (steady 2000) (startedWorld 1000))) = NoBlob
   \<and> completeSet 1 0 (Some 100) (steady 2000) shortenedWorld = (Some TypeError, shortenedWorld)
   \<and> sessionSetAt 1 0 shortenedWorld
       = Some \<lparr>setNumber = 1, completed = False, completedAt = None, weight = None\<rparr>
   \<and> sessionSetAt 0 0 (snd (completeSet 0 0 (Some 100) (steady 2000) protoWorld))
       = Some \<lparr>setNumber = 1, completed = True, completedAt = Some 2000, weight = Some 100\<rparr>
   \<and> weights (snd (completeSet 0 0 (Some 100) (steady 2000) protoWorld)) = Weights Map.empty"
  by (simp add: sessionSetAt_def getLastUsedWeight_def world_defs engine_defs page_defs
        Let_def upt_rec)

text \<open>
  Claim C7, amended.  For every \<open>completeSet\<close> call on a set of the session, with a
  recorded load other than 0, for which the program still has an exercise at the targeted
  index: the set is persisted as completed at the time of the call with that load (the
  only exception the call can end with is the one of the rendering, after the save, when
  the program has more exercises than the session); the load is written to the weight
  memory under the identifier of the program's exercise when the write can succeed and
  the identifier is not \<open>__proto__\<close>; and when the write cannot succeed (the stored
  blob is unusable, or storing throws), the weight memory stays as it was and the
  completion is applied and persisted all the same.
\<close>

theorem completeSet_remembers_load:
  assumes "active w = Some a" and "getWorkoutProgramById (programId a) w = Some program"
    and "ei < length (exercises a)" and "si < length (sets (exercises a ! ei))"
    and "ei < length (p_exercises program)" and "x \<noteq> 0"
  shows "sessionSetAt ei si (snd (completeSet ei si (Some x) c w))
         = Some ((sets (exercises a ! ei) ! si)\<lparr>completed := True,
                    completedAt := Some (t_call c), weight := Some x\<rparr>)
     \<and> fst (completeSet ei si (Some x) c w)
         = (if el_exercise_list w \<and> length (exercises a) < length (p_exercises program)
            then Some TypeError else None)
     \<and> (weights w \<noteq> Corrupt \<and> \<not> weights_setItem_throws w
          \<and> e_id (p_exercises program ! ei) \<noteq> ''__proto__'' \<longrightarrow>
          getLastUsedWeight (e_id (p_exercises program ! ei))
            (snd (completeSet ei si (Some x) c w)) = Some x)
     \<and> (weights w = Corrupt \<or> weights_setItem_throws w \<longrightarrow>
          weights (snd (completeSet ei si (Some x) c w)) = weights w)"
proof -
  let ?eid = "e_id (p_exercises program ! ei)"
  from completeSet_in_range [OF assms(1-5), where wt = "Some x" and c = c]
  obtain a2 w2 where res: "completeSet ei si (Some x) c w
                             = (renderExercises program a w, saveActiveWorkout a2 w2)"
    and wts: "weights w2 = weights (saveLastUsedWeight ?eid x w)"
    and len: "length (exercises a2) = length (exercises a)"
      "length (sets (exercises a2 ! ei)) = length (sets (exercises a ! ei))"
    and tgt: "sets (exercises a2 ! ei) ! si
               = (sets (exercises a ! ei) ! si)\<lparr>completed := True,
                    completedAt := Some (t_call c), weight := Some x\<rparr>"
    using assms(6) by auto
  have w': "weights (snd (completeSet ei si (Some x) c w)) = weights (saveLastUsedWeight ?eid x w)"
    using res wts by simp
  have "fst (completeSet ei si (Some x) c w)
         = (if el_exercise_list w \<and> length (exercises a) < length (p_exercises program)
            then Some TypeError else None)"
    using res by (simp add: renderExercises_def)
  moreover have "sessionSetAt ei si (snd (completeSet ei si (Some x) c w))
         = Some ((sets (exercises a ! ei) ! si)\<lparr>completed := True,
                    completedAt := Some (t_call c), weight := Some x\<rparr>)"
    using res len tgt assms(3,4) by (simp add: sessionSetAt_def saveActiveWorkout_def)
  moreover have "getLastUsedWeight ?eid (snd (completeSet ei si (Some x) c w)) = Some x"
    if "weights w \<noteq> Corrupt \<and> \<not> weights_setItem_throws w \<and> ?eid \<noteq> ''__proto__''"
    using saveLastUsedWeight_written [of w ?eid x] that w'
    by (simp add: getLastUsedWeight_def)
  moreover have "weights (snd (completeSet ei si (Some x) c w)) = weights w"
    if "weights w = Corrupt \<or> weights_setItem_throws w"
    using saveLastUsedWeight_failed [OF that, of ?eid x] w' by simp
  ultimately show ?thesis by blast
qed

theorem completeSet_remembers_load_witness:
  "getLastUsedWeight ''push-1''
     (snd (completeSet 0 0 (Some 100) (steady 2000) (startedWorld 1000))) = Some 100
   \<and> fst (completeSet 0 0 (Some 100) (steady 2000) (startedWorld 1000)) = None
   \<and> sessionSetAt 0 0
       (snd (completeSet 0 0 (Some 100) (steady 2000) ((startedWorld 1000)\<lparr>weights := Corrupt\<rparr>)))
       = Some \<lparr>setNumber = 1, completed = True, completedAt = Some 2000, weight = Some 100\<rparr>
   \<and> weights
       (snd (completeSet 0 0 (Some 100) (steady 2000) ((startedWorld 1000)\<lparr>weights := Corrupt\<rparr>)))
       = Corrupt"
proof -
  let ?a = "createActiveWorkout 1000 sampleProgram"
  let ?w = "startedWorld 1000"
  let ?c = "(startedWorld 1000)\<lparr>weights := Corrupt\<rparr>"
  have a: "active ?w = Some ?a" "active ?c = Some ?a"
    by (simp_all add: world_defs)
  have p: "getWorkoutProgramById (programId ?a) ?w = Some sampleProgram"
    "getWorkoutProgramById (programId ?a) ?c = Some sampleProgram"
    by (simp_all add: world_defs)
  have r: "(0::nat) < length (exercises ?a)" "(0::nat) < length (sets (exercises ?a ! 0))"
    "(0::nat) < length (p_exercises sampleProgram)" "(100::rat) \<noteq> 0"
    by (simp_all add: world_defs upt_rec)
  have ok: "weights ?w \<noteq> Corrupt \<and> \<not> weights_setItem_throws ?w" "weights ?c = Corrupt"
    "\<not> length (exercises ?a) < length (p_exercises sampleProgram)"
    by (simp_all add: world_defs)
  have s: "sets (exercises ?a ! 0) ! 0
             = \<lparr>setNumber = 1, completed = False, completedAt = None, weight = None\<rparr>"
    "e_id (p_exercises sampleProgram ! 0) = ''push-1''" "t_call (steady 2000) = 2000"
    by (simp_all add: world_defs upt_rec)
  from completeSet_remembers_load [OF a(1) p(1) r, where c = "steady 2000"]
    completeSet_remembers_load [OF a(2) p(2) r, where c = "steady 2000"] ok s
  show ?thesis by simp
qed

section \<open>The rest period begun by completeSet\<close>

text \<open>
  \<open>completeSet\<close> holds a copy of the session read at its start; \<open>startResting\<close> reads
  a second copy, marks it as resting and saves it; \<open>completeSet\<close> then saves its own
  copy, whose rest fields are those read at the start.  The rest fields of the persisted
  session are therefore never changed by \<open>completeSet\<close>.
\<close>

text \<open>The part of the claim that holds: when a set of the exercise is still open after
  the target is marked, the persisted current set index is the first open set.\<close>

lemma completeSet_current_set:
  assumes "active w = Some a" and "getWorkoutProgramById (programId a) w = Some program"
    and "ei < length (exercises a)" and "si < length (sets (exercises a ! ei))"
    and "ei < length (p_exercises program)"
    and "findIndex (\<lambda>s i. \<not> completed s)
           (sets (exercises (markCompleted ei si (t_call c) wt a) ! ei)) = Some n"
  shows "map_option (\<lambda>a'. currentSet (exercises a' ! ei))
           (active (snd (completeSet ei si wt c w))) = Some n"
    and "\<not> completed (sets (exercises (markCompleted ei si (t_call c) wt a) ! ei) ! n)"
    and "\<forall>j<n. completed (sets (exercises (markCompleted ei si (t_call c) wt a) ! ei) ! j)"
proof -
  show "map_option (\<lambda>a'. currentSet (exercises a' ! ei))
           (active (snd (completeSet ei si wt c w))) = Some n"
    using assms
    by (simp add: completeSet_def getActiveWorkout_def saveActiveWorkout_def Let_def
          split: option.splits)
  from findIndex_least(2,3) [OF assms(6)]
  show "\<not> completed (sets (exercises (markCompleted ei si (t_call c) wt a) ! ei) ! n)"
    and "\<forall>j<n. completed (sets (exercises (markCompleted ei si (t_call c) wt a) ! ei) ! j)"
    by simp_all
qed

lemma completeSet_keeps_rest_fields:
  assumes "active w = Some a"
  shows "\<exists>a'. active (snd (completeSet ei si wt c w)) = Some a'
           \<and> isResting a' = isResting a \<and> restStartTime a' = restStartTime a
           \<and> restDuration a' = restDuration a"
  using assms
  by (cases rule: completeSet_cases [where ei = ei and si = si and wt = wt and c = c])
    simp_all

text \<open>
  Claim C6 says that after \<open>completeSet\<close>, when a set of the exercise is still open,
  the current set index is the first open set and the session is resting
  (\<open>isResting\<close>, \<open>restStartTime = now\<close>, \<open>restDuration = restTime * 1000\<close>).  On the
  sample session, completing set 0 of exercise 0 at 2000 moves the current set index to 1
  and arms the countdown until 77000, and \<open>startResting\<close> by itself persists the rest
  state; but the session persisted by \<open>completeSet\<close> is not resting and has no anchors.
\<close>

theorem completeSet_rest_not_persisted:
  "map_option (\<lambda>a. (isResting a, restStartTime a, restDuration a))
      (active (startResting 75 (steady 2000) (startedWorld 1000)))
     = Some (True, Some 2000, Some 75000)
   \<and> map_option (\<lambda>a. currentSet (exercises a ! 0))
      (active (snd (completeSet 0 0 (Some 100) (steady 2000) (startedWorld 1000)))) = Some 1
   \<and> map_option (\<lambda>a. (isResting a, restStartTime a, restDuration a))
      (active (snd (completeSet 0 0 (Some 100) (steady 2000) (startedWorld 1000))))
     = Some (False, None, None)
   \<and> restEndTime (snd (completeSet 0 0 (Some 100) (steady 2000) (startedWorld 1000))) = Some 77000
   \<and> restTimer (snd (completeSet 0 0 (Some 100) (steady 2000) (startedWorld 1000)))"
  by (simp add: world_defs engine_defs Let_def upt_rec)

section \<open>Resuming a stored session\<close>

lemma stopResting_expires:
  assumes "active w = Some a"
  shows "active (stopResting w)
           = Some (a\<lparr>isResting := False, restStartTime := None, restDuration := None\<rparr>)"
    and "restEndTime (stopResting w) = None"
  using assms
  by (simp_all add: stopResting_def getActiveWorkout_def saveActiveWorkout_def Let_def)

text \<open>What \<open>startRestTimer\<close> does on a page that has the rest-timer elements: the
  countdown stays armed when its first display shows at least one second, and expires at
  once otherwise.\<close>

lemma startRestTimer_armed:
  assumes "el_rest_timer_container w" and "el_rest_countdown w"
    and "1000 \<le> t_end c + seconds * 1000 - t_shown c"
  shows "startRestTimer seconds c w
           = w\<lparr>restEndTime := Some (t_end c + seconds * 1000), restTimer := True\<rparr>"
proof -
  from assms(3) have "1 \<le> (t_end c + seconds * 1000 - t_shown c) div 1000" by simp
  hence "max 0 ((t_end c + seconds * 1000 - t_shown c) div 1000) \<noteq> 0" by simp
  with assms(1,2) show ?thesis
    by (simp add: startRestTimer_def updateRestDisplay_def Let_def)
qed

lemma startRestTimer_expired:
  assumes "el_rest_timer_container w" and "el_rest_countdown w"
    and "t_end c + seconds * 1000 - t_shown c < 1000" and "t_end c + seconds * 1000 \<noteq> 0"
  shows "startRestTimer seconds c w
           = (stopResting (w\<lparr>restEndTime := Some (t_end c + seconds * 1000)\<rparr>))\<lparr>restTimer := True\<rparr>"
proof -
  from assms(3) have "(t_end c + seconds * 1000 - t_shown c) div 1000 \<le> 0" by simp
  hence "max 0 ((t_end c + seconds * 1000 - t_shown c) div 1000) = 0" by simp
  with assms(1,2,4) show ?thesis
    by (simp add: startRestTimer_def updateRestDisplay_def Let_def)
qed

text \<open>
  Claim C4, as stated, fails, on stored sessions that are marked as resting and not
  paused.  The countdown is re-armed with \<open>Math.floor(remaining / 1000)\<close> seconds, not
  with the remaining milliseconds: with 500 ms left it starts at zero seconds and its
  first display update expires the rest at once, and with 20500 ms left it ends 20000 ms
  after the resume.  With 1500 ms left and a clock that advances by one millisecond before
  the first display update, the rest expires at once as well.  A stored rest of zero
  length fails the truthiness test and stays resting, although nothing remains; so does a
  session on a page without the countdown element, with nothing armed, one whose program
  is gone, and one whose program has grown, for which the rendering throws before the
  timer code.
\<close>

theorem resume_subsecond_rest_counterexample:
  "75000 - (76500 - 2000) = (500::int)
   \<and> restEndTime (snd (resumeWorkout restingSession (steady 76500)
                         (sampleWorld (Some restingSession)))) = None
   \<and> map_option isResting
        (active (snd (resumeWorkout restingSession (steady 76500)
                        (sampleWorld (Some restingSession))))) = Some False
   \<and> 75000 - (56500 - 2000) = (20500::int)
   \<and> restEndTime (snd (resumeWorkout restingSession (steady 56500)
                         (sampleWorld (Some restingSession)))) = Some (56500 + 20000)
   \<and> 75000 - (75500 - 2000) = (1500::int)
   \<and> map_option isResting
        (active (snd (resumeWorkout restingSession
                        \<lparr>t_call = 75500, t_rest = 75500, t_end = 75500, t_shown = 75501\<rparr>
                        (sampleWorld (Some restingSession))))) = Some False
   \<and> resumeWorkout zeroRestSession (steady 90000) (sampleWorld (Some zeroRestSession))
       = (None, (sampleWorld (Some zeroRestSession))\<lparr>workoutStartTime := Some 1000,
                   workoutTimer := True\<rparr>)
   \<and> isResting zeroRestSession
   \<and> resumeWorkout restingSession (steady 56500)
        ((sampleWorld (Some restingSession))\<lparr>el_rest_countdown := False\<rparr>)
       = (None, (sampleWorld (Some restingSession))\<lparr>el_rest_countdown := False,
                   workoutStartTime := Some 1000, workoutTimer := True\<rparr>)
   \<and> resumeWorkout restingSession (steady 90000)
        ((sampleWorld (Some restingSession))\<lparr>programs := []\<rparr>)
       = (None, (sampleWorld (Some restingSession))\<lparr>programs := []\<rparr>)
   \<and> resumeWorkout restingSession (steady 90000)
        ((sampleWorld (Some restingSession))\<lparr>programs := [longProgram]\<rparr>)
       = (Some TypeError, (sampleWorld (Some restingSession))\<lparr>programs := [longProgram],
                             workoutStartTime := Some 1000\<rparr>)"
  by (simp add: restingSession_def zeroRestSession_def world_defs engine_defs page_defs Let_def)

text \<open>
  Claim C4, amended.  Take a stored session that is not paused and whose program still
  exists and has no more exercises than the session (so that the rendering succeeds),
  resumed on a page that has the rest-timer elements, at a clock value after the epoch.
  If the session is resting with both anchors present and a non-zero \<open>restDuration\<close>,
  then with \<open>remaining = restDuration - (now - restStartTime)\<close>: when \<open>remaining\<close> is
  positive the countdown is armed for \<open>remaining\<close> truncated to whole seconds, and the
  stored session stays as it is (resting, anchors kept) provided the first display of
  that countdown still shows at least one second; when \<open>remaining\<close> is zero or negative,
  or the first display shows less than one second, the session leaves the resting state
  at once: \<open>isResting\<close> is false and both anchors are cleared.  A session that is not
  resting is left as it is, with no countdown armed.
\<close>

theorem resumeWorkout_rest:
  assumes "active w = Some a" and "getWorkoutProgramById (programId a) w = Some program"
    and "length (p_exercises program) \<le> length (exercises a)"
    and "\<not> paused a"
    and "el_rest_timer_container w" and "el_rest_countdown w" and "0 < t_end c"
  shows "fst (resumeWorkout a c w) = None
       \<and> (isResting a \<and> restStartTime a = Some restStart \<and> restDuration a = Some d \<and> d \<noteq> 0 \<longrightarrow>
            (0 < d - (t_call c - restStart)
              \<and> 1000 \<le> t_end c + ((d - (t_call c - restStart)) div 1000) * 1000 - t_shown c \<longrightarrow>
                restEndTime (snd (resumeWorkout a c w))
                  = Some (t_end c + ((d - (t_call c - restStart)) div 1000) * 1000)
                \<and> restTimer (snd (resumeWorkout a c w))
                \<and> active (snd (resumeWorkout a c w)) = Some a)
          \<and> (d - (t_call c - restStart) \<le> 0
              \<or> t_end c + ((d - (t_call c - restStart)) div 1000) * 1000 - t_shown c < 1000 \<longrightarrow>
                active (snd (resumeWorkout a c w))
                  = Some (a\<lparr>isResting := False, restStartTime := None, restDuration := None\<rparr>)
                \<and> restEndTime (snd (resumeWorkout a c w)) = None))
       \<and> (\<not> isResting a \<longrightarrow>
            active (snd (resumeWorkout a c w)) = Some a
            \<and> restEndTime (snd (resumeWorkout a c w)) = restEndTime w
            \<and> restTimer (snd (resumeWorkout a c w)) = restTimer w)"
proof -
  let ?r = "d - (t_call c - restStart)"
  let ?E = "t_end c + (?r div 1000) * 1000"
  let ?w2 = "startWorkoutTimer (w\<lparr>workoutStartTime := Some (startTime a)\<rparr>)"
  have render: "renderExercises program a (w\<lparr>workoutStartTime := Some (startTime a)\<rparr>) = None"
    using assms(3) by (simp add: renderExercises_def)
  have el: "el_rest_timer_container ?w2" "el_rest_countdown ?w2"
    using assms(5,6) by (simp_all add: startWorkoutTimer_def)
  have act: "active ?w2 = Some a"
    using assms(1) by (simp add: startWorkoutTimer_def)
  have keep: "restEndTime ?w2 = restEndTime w" "restTimer ?w2 = restTimer w"
    by (simp_all add: startWorkoutTimer_def)
  have no_error: "fst (resumeWorkout a c w) = None"
    using assms(2,4) render
    by (simp add: resumeWorkout_def Let_def split: option.splits bool.splits)
  have idle: "snd (resumeWorkout a c w) = ?w2" if "\<not> isResting a"
    using assms(2,4) render that
    by (simp add: resumeWorkout_def Let_def split: option.splits)
  have res: "snd (resumeWorkout a c w)
               = (if 0 < ?r then startRestTimer (?r div 1000) c ?w2 else stopResting ?w2)"
    if "isResting a" "restStartTime a = Some restStart" "restDuration a = Some d" "d \<noteq> 0"
    using assms(2,4) render that by (simp add: resumeWorkout_def Let_def)
  have armed: "restEndTime (snd (resumeWorkout a c w)) = Some ?E
             \<and> restTimer (snd (resumeWorkout a c w)) \<and> active (snd (resumeWorkout a c w)) = Some a"
    if "isResting a" "restStartTime a = Some restStart" "restDuration a = Some d" "d \<noteq> 0"
      and "0 < ?r" "1000 \<le> ?E - t_shown c"
    using startRestTimer_armed [OF el that(6)] res [OF that(1-4)] that(5) act by simp
  have expired: "active (snd (resumeWorkout a c w))
                 = Some (a\<lparr>isResting := False, restStartTime := None, restDuration := None\<rparr>)
               \<and> restEndTime (snd (resumeWorkout a c w)) = None"
    if "isResting a" "restStartTime a = Some restStart" "restDuration a = Some d" "d \<noteq> 0"
      and "?r \<le> 0 \<or> ?E - t_shown c < 1000"
  proof (cases "0 < ?r")
    case True
    with that(5) have late: "?E - t_shown c < 1000" by simp
    from True have "0 \<le> (?r div 1000) * 1000" by simp
    with assms(7) have "?E \<noteq> 0" by linarith
    from startRestTimer_expired [OF el late this] res [OF that(1-4)] True
    have "snd (resumeWorkout a c w)
            = (stopResting (?w2\<lparr>restEndTime := Some ?E\<rparr>))\<lparr>restTimer := True\<rparr>"
      by simp
    with act show ?thesis
      by (simp add: stopResting_def getActiveWorkout_def saveActiveWorkout_def Let_def)
  next
    case False
    with res [OF that(1-4)] have "snd (resumeWorkout a c w) = stopResting ?w2" by simp
    with stopResting_expires [OF act] show ?thesis by simp
  qed
  have resting: "(0 < ?r \<and> 1000 \<le> ?E - t_shown c \<longrightarrow>
                restEndTime (snd (resumeWorkout a c w)) = Some ?E
                \<and> restTimer (snd (resumeWorkout a c w))
                \<and> active (snd (resumeWorkout a c w)) = Some a)
          \<and> (?r \<le> 0 \<or> ?E - t_shown c < 1000 \<longrightarrow>
                active (snd (resumeWorkout a c w))
                  = Some (a\<lparr>isResting := False, restStartTime := None, restDuration := None\<rparr>)
                \<and> restEndTime (snd (resumeWorkout a c w)) = None)"
    if h: "isResting a \<and> restStartTime a = Some restStart \<and> restDuration a = Some d \<and> d \<noteq> 0"
  proof (intro conjI impI)
    assume "0 < ?r \<and> 1000 \<le> ?E - t_shown c"
    with h armed show "restEndTime (snd (resumeWorkout a c w)) = Some ?E"
      and "restTimer (snd (resumeWorkout a c w))"
      and "active (snd (resumeWorkout a c w)) = Some a"
      by blast+
  next
    assume "?r \<le> 0 \<or> ?E - t_shown c < 1000"
    with h expired show "active (snd (resumeWorkout a c w))
                  = Some (a\<lparr>isResting := False, restStartTime := None, restDuration := None\<rparr>)"
      and "restEndTime (snd (resumeWorkout a c w)) = None"
      by blast+
  qed
  have quiet: "active (snd (resumeWorkout a c w)) = Some a
            \<and> restEndTime (snd (resumeWorkout a c w)) = restEndTime w
            \<and> restTimer (snd (resumeWorkout a c w)) = restTimer w"
    if "\<not> isResting a"
    using idle [OF that] act keep by simp
  from no_error show ?thesis
  proof (rule conjI)
    show "(isResting a \<and> restStartTime a = Some restStart \<and> restDuration a = Some d \<and> d \<noteq> 0 \<longrightarrow>
            (0 < ?r \<and> 1000 \<le> ?E - t_shown c \<longrightarrow>
                restEndTime (snd (resumeWorkout a c w)) = Some ?E
                \<and> restTimer (snd (resumeWorkout a c w))
                \<and> active (snd (resumeWorkout a c w)) = Some a)
          \<and> (?r \<le> 0 \<or> ?E - t_shown c < 1000 \<longrightarrow>
                active (snd (resumeWorkout a c w))
                  = Some (a\<lparr>isResting := False, restStartTime := None, restDuration := None\<rparr>)
                \<and> restEndTime (snd (resumeWorkout a c w)) = None))
       \<and> (\<not> isResting a \<longrightarrow>
            active (snd (resumeWorkout a c w)) = Some a
            \<and> restEndTime (snd (resumeWorkout a c w)) = restEndTime w
            \<and> restTimer (snd (resumeWorkout a c w)) = restTimer w)"
    proof (rule conjI)
      show "isResting a \<and> restStartTime a = Some restStart \<and> restDuration a = Some d \<and> d \<noteq> 0 \<longrightarrow>
            (0 < ?r \<and> 1000 \<le> ?E - t_shown c \<longrightarrow>
                restEndTime (snd (resumeWorkout a c w)) = Some ?E
                \<and> restTimer (snd (resumeWorkout a c w))
                \<and> active (snd (resumeWorkout a c w)) = Some a)
          \<and> (?r \<le> 0 \<or> ?E - t_shown c < 1000 \<longrightarrow>
                active (snd (resumeWorkout a c w))
                  = Some (a\<lparr>isResting := False, restStartTime := None, restDuration := None\<rparr>)
                \<and> restEndTime (snd (resumeWorkout a c w)) = None)"
        by (rule impI) (rule resting)
      show "\<not> isResting a \<longrightarrow>
            active (snd (resumeWorkout a c w)) = Some a
            \<and> restEndTime (snd (resumeWorkout a c w)) = restEndTime w
            \<and> restTimer (snd (resumeWorkout a c w)) = restTimer w"
        by (rule impI) (rule quiet)
    qed
  qed
qed


theorem resumeWorkout_rest_witness:
  "restEndTime (snd (resumeWorkout restingSession (steady 56500)
                       (sampleWorld (Some restingSession)))) = Some 76500
   \<and> active (snd (resumeWorkout restingSession (steady 56500)
                    (sampleWorld (Some restingSession)))) = Some restingSession
   \<and> active (snd (resumeWorkout restingSession (steady 76500)
                    (sampleWorld (Some restingSession))))
       = Some (restingSession\<lparr>isResting := False, restStartTime := None, restDuration := None\<rparr>)
   \<and> active (snd (resumeWorkout restingSession
                    \<lparr>t_call = 75500, t_rest = 75500, t_end = 75500, t_shown = 75501\<rparr>
                    (sampleWorld (Some restingSession))))
       = Some (restingSession\<lparr>isResting := False, restStartTime := None, restDuration := None\<rparr>)
   \<and> active (snd (resumeWorkout restingSession (steady 90000)
                    (sampleWorld (Some restingSession))))
       = Some (restingSession\<lparr>isResting := False, restStartTime := None, restDuration := None\<rparr>)
   \<and> restEndTime (snd (resumeWorkout restingSession (steady 90000)
                         (sampleWorld (Some restingSession)))) = None
   \<and> active (snd (resumeWorkout (createActiveWorkout 1000 sampleProgram) (steady 9000)
                    (freshModule (startedWorld 1000))))
       = Some (createActiveWorkout 1000 sampleProgram)
   \<and> restEndTime (snd (resumeWorkout (createActiveWorkout 1000 sampleProgram) (steady 9000)
                         (freshModule (startedWorld 1000)))) = None"
proof -
  let ?w = "sampleWorld (Some restingSession)"
  let ?late = "\<lparr>t_call = 75500, t_rest = 75500, t_end = 75500, t_shown = 75501\<rparr>"
  let ?a = "createActiveWorkout 1000 sampleProgram"
  let ?v = "freshModule (startedWorld 1000)"
  have h: "active ?w = Some restingSession"
    "getWorkoutProgramById (programId restingSession) ?w = Some sampleProgram"
    "length (p_exercises sampleProgram) \<le> length (exercises restingSession)"
    "\<not> paused restingSession" "el_rest_timer_container ?w" "el_rest_countdown ?w"
    by (simp_all add: restingSession_def world_defs)
  have g: "active ?v = Some ?a" "getWorkoutProgramById (programId ?a) ?v = Some sampleProgram"
    "length (p_exercises sampleProgram) \<le> length (exercises ?a)"
    "\<not> paused ?a" "el_rest_timer_container ?v" "el_rest_countdown ?v"
    by (simp_all add: world_defs page_defs)
  have r: "isResting restingSession" "restStartTime restingSession = Some 2000"
    "restDuration restingSession = Some 75000" "\<not> isResting ?a" "restEndTime ?v = None"
    by (simp_all add: restingSession_def world_defs page_defs)
  have t: "0 < t_end (steady 56500)" "0 < t_end (steady 76500)" "0 < t_end (steady 90000)"
    "0 < t_end ?late" "0 < t_end (steady 9000)"
    by (simp_all add: steady_def)
  from resumeWorkout_rest [OF h t(1), of 2000 75000] resumeWorkout_rest [OF h t(2), of 2000 75000]
    resumeWorkout_rest [OF h t(3), of 2000 75000] resumeWorkout_rest [OF h t(4), of 2000 75000]
    resumeWorkout_rest [OF g t(5), of 0 0] r
  show ?thesis by (simp add: steady_def)
qed

section \<open>Pausing\<close>

text \<open>
  No page run leaves rest state in the store: \<open>startResting\<close> is the only writer of
  \<open>isResting = true\<close>, it is reached through \<open>completeSet\<close> only, and
  \<open>completeSet\<close> then saves its own copy over it.
\<close>

lemma restFree_stopResting [simp]: "restFree (stopResting w)"
  by (simp add: restFree_def stopResting_def getActiveWorkout_def saveActiveWorkout_def Let_def
        split: option.splits)

lemma restFree_timer_fields [simp]:
  "restFree (w\<lparr>restTimer := b\<rparr>) = restFree w"
  "restFree (w\<lparr>restEndTime := e\<rparr>) = restFree w"
  "restFree (w\<lparr>workoutTimer := b\<rparr>) = restFree w"
  "restFree (w\<lparr>workoutStartTime := t\<rparr>) = restFree w"
  "restFree (w\<lparr>programs := ps\<rparr>) = restFree w"
  by (simp_all add: restFree_def)

lemma restFree_updateRestDisplay: "restFree w \<Longrightarrow> restFree (updateRestDisplay now w)"
  by (simp add: updateRestDisplay_def Let_def split: option.splits)

lemma restFree_startRestTimer: "restFree w \<Longrightarrow> restFree (startRestTimer seconds c w)"
  by (simp add: startRestTimer_def Let_def restFree_updateRestDisplay)

lemma restFree_startWorkoutTimer [simp]: "restFree (startWorkoutTimer w) = restFree w"
  by (simp add: startWorkoutTimer_def)

lemma restFree_stopWorkoutTimer [simp]: "restFree (stopWorkoutTimer w) = restFree w"
  by (simp add: stopWorkoutTimer_def)

lemma restFree_addRestTime: "restFree w \<Longrightarrow> restFree (addRestTime seconds w)"
  by (auto simp: addRestTime_def restFree_def getActiveWorkout_def Let_def split: option.splits)

lemma restFree_togglePauseWorkout: "restFree w \<Longrightarrow> restFree (togglePauseWorkout c w)"
  by (auto simp: togglePauseWorkout_def restFree_def getActiveWorkout_def saveActiveWorkout_def
        startWorkoutTimer_def stopWorkoutTimer_def Let_def split: option.splits)

lemma restFree_resumePersisted: "restFree w \<Longrightarrow> restFree (snd (resumePersisted c w))"
  by (auto simp: resumePersisted_def resumeWorkout_def restFree_def getActiveWorkout_def
        startWorkoutTimer_def Let_def split: option.splits)

lemma restFree_completeSet: "restFree w \<Longrightarrow> restFree (snd (completeSet ei si wt c w))"
proof (cases "active w")
  case None
  assume "restFree w"
  with None show ?thesis by (simp add: completeSet_no_session)
next
  case (Some a)
  assume "restFree w"
  with Some completeSet_keeps_rest_fields [OF Some, of ei si wt c] show ?thesis
    by (auto simp: restFree_def)
qed

lemma restFree_created [simp]: "restFree (saveActiveWorkout (createActiveWorkout now program) w)"
  by (simp add: restFree_def saveActiveWorkout_def createActiveWorkout_def)

lemma restFree_startWorkout: "restFree w \<Longrightarrow> restFree (snd (startWorkout n now w))"
  by (simp add: startWorkout_def Let_def split: option.splits)

lemma restFree_resetWorkout: "restFree w \<Longrightarrow> restFree (snd (resetWorkout confirmed now w))"
  by (simp add: resetWorkout_def Let_def split: option.splits)

lemma restFree_finishWorkout:
  "restFree w \<Longrightarrow> restFree (snd (finishWorkout confirmed api_ok now w))"
  by (simp add: finishWorkout_def addWorkout_def clearActiveWorkout_def restFree_def Let_def
        split: option.splits)

lemma restFree_dispatch:
  assumes "restFree w" and "\<not> (\<exists>seconds. ev = StartResting seconds)"
  shows "restFree (dispatch c ev w)"
  using assms
  by (cases ev)
    (simp_all add: restFree_completeSet restFree_addRestTime restFree_togglePauseWorkout
      restFree_updateRestDisplay restFree_resumePersisted skipRest_def)

lemma restFree_perform:
  assumes "restFree w" and "fromPage act"
  shows "restFree (perform c act w)"
proof (cases act)
  case (Engine ev)
  with assms(2) have "\<not> (\<exists>seconds. ev = StartResting seconds)" by auto
  from restFree_dispatch [OF assms(1) this] Engine show ?thesis by simp
next
  case PageLoad
  from assms(1) have "restFree (freshModule w)" by (simp add: freshModule_def)
  from restFree_resumePersisted [OF this] PageLoad show ?thesis by simp
qed (use assms(1) in \<open>simp_all add: restFree_startWorkout restFree_resetWorkout
      restFree_finishWorkout\<close>)

lemma restFree_pageRun:
  assumes "restFree w" and "list_all (\<lambda>(c, act). fromPage act) acts"
  shows "restFree (pageRun acts w)"
  using assms
proof (induction acts arbitrary: w)
  case Nil
  then show ?case by simp
next
  case (Cons x acts)
  obtain c act where x: "x = (c, act)" by (cases x)
  with Cons.prems have "fromPage act" and rest: "list_all (\<lambda>(c, act). fromPage act) acts"
    by simp_all
  from restFree_perform [OF Cons.prems(1) this(1)] have "restFree (perform c act w)" .
  from Cons.IH [OF this rest] x show ?case by simp
qed

lemma restFree_anchors:
  assumes "restFree w" and "restFree w'" and "session_core w' = session_core w"
  shows "map_option restStartTime (active w') = map_option restStartTime (active w)
       \<and> map_option restDuration (active w') = map_option restDuration (active w)
       \<and> map_option isResting (active w') = map_option isResting (active w)"
  using assms
  by (cases "active w"; cases "active w'") (simp_all add: restFree_def session_core_def)

text \<open>
  The pause branch of \<open>togglePauseWorkout\<close> stops the rest through \<open>stopResting\<close>,
  which also clears the rest state of the store, but only when the stored session is
  marked as resting.  On the states that page actions reach it never is, so there a pause
  changes no rest field and leaves a running countdown armed.
\<close>

lemma togglePauseWorkout_pause_resting:
  assumes "active w = Some a" and "el_pause_workout_btn w" and "\<not> paused a" and "isResting a"
  shows "active (togglePauseWorkout c w)
           = Some (a\<lparr>paused := True, isResting := False, restStartTime := None,
                     restDuration := None\<rparr>)"
  using assms
  by (simp add: togglePauseWorkout_def stopResting_def stopWorkoutTimer_def
        getActiveWorkout_def saveActiveWorkout_def Let_def)

lemma pause_leaves_countdown_armed:
  "restEndTime (togglePauseWorkout (steady 5000) restingOnPage) = Some 77000
   \<and> restTimer (togglePauseWorkout (steady 5000) restingOnPage)"
  by (simp add: restingOnPage_def world_defs engine_defs Let_def upt_rec)



end
